theory Spec2Isabelle
  imports Main "HOL-Library.Sublist"
begin

section \<open>pr-notify-bot: the pull-request synchronisation engine\<close>

text \<open>
  The repository polls one GitHub repository for pull requests and posts a message to
  Bluesky for each lifecycle change. This theory embeds the three source files that
  carry the logic: \<^verbatim>\<open>service.ts\<close> (the lazily initialised base class),
  \<^verbatim>\<open>github.service.ts\<close> (paging, author resolution, filtering, the watermark) and
  \<^verbatim>\<open>index.ts\<close> (the \<^verbatim>\<open>update\<close> job with its mutex and the message composer).

  Network calls are parameters of the model: a request is a function from its arguments
  to either a rejection or a response. The wall clock is a parameter too.
\<close>

subsection \<open>Errors and dates\<close>

text \<open>
  Everything the code can throw. \<open>Error m\<close> is \<^verbatim>\<open>new Error(m)\<close>, \<open>TypeError\<close> is what the
  runtime throws on a property access on \<^verbatim>\<open>undefined\<close> and what \<^verbatim>\<open>new URL\<close> throws on
  a string that is no URL, \<open>RangeError\<close> is what \<^verbatim>\<open>toISOString\<close> throws on an invalid
  date, and \<open>RequestError\<close> is the rejection of a network request.
\<close>

datatype error = Error string | TypeError | RangeError | RequestError

text \<open>
  A JavaScript \<^verbatim>\<open>Date\<close> is a number of milliseconds since the epoch, or the invalid date
  (time value NaN). The relational operators compare the time values, and every
  comparison with NaN is false.
\<close>

datatype Date = Valid_Date int | Invalid_Date

fun date_lt :: "Date \<Rightarrow> int \<Rightarrow> bool" where
  "date_lt (Valid_Date t) w = (t < w)"
| "date_lt Invalid_Date w = False"

fun date_ge :: "Date \<Rightarrow> int \<Rightarrow> bool" where
  "date_ge (Valid_Date t) w = (w \<le> t)"
| "date_ge Invalid_Date w = False"

text \<open>
  \<^verbatim>\<open>new Date(x)\<close> for a field of type \<^verbatim>\<open>string | null\<close>. The field is modelled by the
  date its string parses to, \<open>None\<close> is \<^verbatim>\<open>null\<close>; \<^verbatim>\<open>new Date(null)\<close> is the epoch.
\<close>

fun new_Date :: "Date option \<Rightarrow> Date" where
  "new_Date (Some d) = d"
| "new_Date None = Valid_Date 0"

text \<open>\<^verbatim>\<open>toISOString\<close>; the ISO string is modelled by the time value it denotes.\<close>

fun toISOString :: "Date \<Rightarrow> error + int" where
  "toISOString (Valid_Date t) = Inr t"
| "toISOString Invalid_Date = Inl RangeError"

text \<open>Truthiness of a value of type \<^verbatim>\<open>string | undefined\<close>.\<close>

fun truthy :: "string option \<Rightarrow> bool" where
  "truthy None = False"
| "truthy (Some s) = (s \<noteq> [])"

subsection \<open>service.ts\<close>

text \<open>
  \<^verbatim>\<open>Service\<close> is the abstract base class; a subclass extends the record and supplies
  \<^verbatim>\<open>onInit\<close>, which may change the subclass's fields and may throw.
\<close>

record Service =
  isInitialized :: bool

text \<open>
  What one call of \<^verbatim>\<open>init\<close> leaves behind: whether it returned or threw, the instance
  afterwards, and how many times it invoked \<^verbatim>\<open>onInit\<close>.
\<close>

record 's init_outcome =
  init_result :: "error + unit"
  init_service :: 's
  onInit_calls :: nat

definition init ::
  "('a Service_scheme \<Rightarrow> (error + unit) \<times> 'a Service_scheme) \<Rightarrow> 'a Service_scheme
    \<Rightarrow> 'a Service_scheme init_outcome" where
  "init onInit s =
     (if isInitialized s then
        \<lparr>init_result = Inr (), init_service = s, onInit_calls = 0\<rparr>
      else
        (case onInit s of
           (Inl e, s') \<Rightarrow> \<lparr>init_result = Inl e, init_service = s', onInit_calls = 1\<rparr>
         | (Inr u, s') \<Rightarrow>
             \<lparr>init_result = Inr (), init_service = s'\<lparr>isInitialized := True\<rparr>,
              onInit_calls = 1\<rparr>))"

text \<open>
  A sequence of \<open>n\<close> calls of \<^verbatim>\<open>init\<close> on one instance, each awaited before the next;
  the result is the instance at the end and the total number of \<^verbatim>\<open>onInit\<close> invocations.
\<close>

fun init_times ::
  "nat \<Rightarrow> ('a Service_scheme \<Rightarrow> (error + unit) \<times> 'a Service_scheme) \<Rightarrow> 'a Service_scheme
    \<Rightarrow> 'a Service_scheme \<times> nat" where
  "init_times 0 onInit s = (s, 0)"
| "init_times (Suc n) onInit s =
     (let r = init onInit s; (s', k) = init_times n onInit (init_service r)
      in (s', onInit_calls r + k))"

subsection \<open>bluesky.service.ts\<close>

record BlueskyService = Service +
  loginSettings :: "string \<times> string"
  agent :: "string option"

text \<open>
  \<^verbatim>\<open>BlueskyService.onInit\<close> creates the agent for \<^verbatim>\<open>https://bsky.social\<close>, then logs
  in; \<open>login\<close> is the network request.
\<close>

definition Bluesky_onInit ::
  "(string \<times> string \<Rightarrow> error + unit) \<Rightarrow> BlueskyService \<Rightarrow> (error + unit) \<times> BlueskyService" where
  "Bluesky_onInit login s =
     (let s' = s\<lparr>agent := Some ''https://bsky.social''\<rparr>
      in (login (loginSettings s'), s'))"

subsection \<open>github.service.ts: the data model\<close>

datatype PullRequestState = Open | Merged | Closed | Draft

text \<open>
  The author of a pull request as the code reads it. The interface declares
  \<^verbatim>\<open>username\<close> and \<^verbatim>\<open>url\<close> as strings, but the value the code stores as an author
  can be one inherited from \<^verbatim>\<open>Object.prototype\<close> (see \<open>resolve_author\<close> below), on
  which every field of the interface is undefined: so these two are optional as well.
\<close>

record PullRequestAuthorInfo =
  username :: "string option"
  author_url :: "string option"
  bsky :: "string option"
  bskyUrl :: "string option"
  mastodon :: "string option"
  mastodonUrl :: "string option"
  twitter :: "string option"
  reddit :: "string option"

text \<open>
  \<open>pr_author\<close> is \<open>None\<close> where the source leaves \<^verbatim>\<open>author\<close> undefined (the field is
  written with \<^verbatim>\<open>author!\<close>, which checks nothing at run time).
\<close>

record PullRequestInfo =
  pr_number :: int
  pr_title :: string
  pr_url :: string
  updatedAt :: Date
  pr_state :: PullRequestState
  pr_author :: "PullRequestAuthorInfo option"

record PullRequestEmbed =
  embed_url :: string
  embed_title :: string
  embed_description :: string
  imageUrl :: "string option"

text \<open>The responses of the hosting API, with the fields the code reads.\<close>

record GithubUser =
  login :: string
  html_url :: string

record SocialAccount =
  provider :: string
  social_url :: string

text \<open>
  One element of the \<^verbatim>\<open>pulls.list\<close> response. \<open>raw_user\<close> is \<^verbatim>\<open>raw.user?.login\<close>:
  \<open>None\<close> when the user is \<^verbatim>\<open>null\<close>. The timestamp fields hold the date their string
  parses to; \<open>closed_at\<close> and \<open>merged_at\<close> may be \<^verbatim>\<open>null\<close>.
\<close>

record RawPull =
  raw_number :: int
  raw_title :: string
  raw_html_url :: string
  raw_state :: string
  created_at :: Date
  updated_at :: Date
  closed_at :: "Date option"
  merged_at :: "Date option"
  raw_user :: "string option"

text \<open>
  The Octokit client: \<^verbatim>\<open>pulls.list\<close> (owner, repo, since, page; state and page size
  are constants of the code), \<^verbatim>\<open>users.getByUsername\<close> and
  \<^verbatim>\<open>users.listSocialAccountsForUser\<close>.
\<close>

record Octokit =
  pulls_list :: "string \<Rightarrow> string \<Rightarrow> int \<Rightarrow> nat \<Rightarrow> error + RawPull list"
  getByUsername :: "string \<Rightarrow> error + GithubUser"
  listSocialAccountsForUser :: "string \<Rightarrow> error + SocialAccount list"

text \<open>
  The platform's \<^verbatim>\<open>URL\<close> class is not code of the repository: the parser is a
  parameter, \<open>None\<close> where \<^verbatim>\<open>new URL\<close> throws.
\<close>

record URL =
  hostname :: string
  pathname :: string

type_synonym URL_parser = "string \<Rightarrow> URL option"

record GithubService = Service +
  lastUpdateOn :: int
  ignoreUsers :: "string list"

text \<open>
  The constructor reads the clock: \<^verbatim>\<open>new Date()\<close> is always a valid date, so the
  watermark is kept as its time value.
\<close>

definition new_GithubService :: "int \<Rightarrow> string list \<Rightarrow> GithubService" where
  "new_GithubService now ignore =
     \<lparr>isInitialized = False, lastUpdateOn = now, ignoreUsers = ignore\<rparr>"

subsection \<open>Author resolution\<close>

text \<open>
  \<^verbatim>\<open>String.prototype.split\<close> with a non-empty separator: the pieces between the
  non-overlapping occurrences of the separator, found left to right. \<open>cur\<close> is the
  piece read so far.
\<close>

function split_from :: "string \<Rightarrow> string \<Rightarrow> string \<Rightarrow> string list" where
  "split_from sep cur [] = [cur]"
| "split_from sep cur (c # cs) =
     (if sep \<noteq> [] \<and> prefix sep (c # cs)
      then cur # split_from sep [] (drop (length sep) (c # cs))
      else split_from sep (cur @ [c]) cs)"
  by pat_completeness auto
termination
  by (relation "measure (\<lambda>(sep, cur, s). length s)") (auto simp: neq_Nil_conv)

definition split :: "string \<Rightarrow> string \<Rightarrow> string list" where
  "split sep s = split_from sep [] s"

text \<open>\<^verbatim>\<open>s.split(sep).pop()\<close>: the last piece (the array is never empty).\<close>

definition split_pop :: "string \<Rightarrow> string \<Rightarrow> string" where
  "split_pop sep s = last (split sep s)"

text \<open>
  The body of the \<^verbatim>\<open>try\<close> block of the \<^verbatim>\<open>bluesky\<close> case, up to the assignment of
  \<^verbatim>\<open>author.bsky\<close>: the handle, or what is thrown.
\<close>

definition parse_bluesky :: "URL_parser \<Rightarrow> string \<Rightarrow> error + string" where
  "parse_bluesky new_URL u =
     (case new_URL u of
        None \<Rightarrow> Inl TypeError
      | Some url \<Rightarrow>
          if hostname url \<noteq> ''bsky.app''
          then Inl (Error (''Invalid Bluesky hostname: '' @ hostname url))
          else
            (let username = split_pop ''/profile/'' (pathname url)
             in if length username = 0 then Inl (Error (''Invalid Bluesky URL: '' @ u))
                else Inr username))"

text \<open>
  The body of the \<^verbatim>\<open>try\<close> block of the \<^verbatim>\<open>mastodon\<close> case. The source assigns
  \<^verbatim>\<open>author.mastodon\<close> first and tests the length of the username afterwards, so the
  block can both assign and throw: the result is the value assigned (if the assignment
  was reached) and what is thrown (if anything).
\<close>

definition parse_mastodon :: "URL_parser \<Rightarrow> string \<Rightarrow> string option \<times> error option" where
  "parse_mastodon new_URL u =
     (case new_URL u of
        None \<Rightarrow> (None, Some TypeError)
      | Some url \<Rightarrow>
          (let domain = hostname url;
               username = split_pop ''@'' (pathname url)
           in (Some (username @ ''@'' @ domain),
               if length username = 0 then Some (Error (''Invalid Mastodon URL: '' @ u))
               else None)))"

text \<open>
  One iteration of \<^verbatim>\<open>socialUrls.data.forEach\<close>: the author record afterwards and the
  errors caught and written to the console by this iteration.
\<close>

definition add_social ::
  "URL_parser \<Rightarrow> PullRequestAuthorInfo \<times> error list \<Rightarrow> SocialAccount
    \<Rightarrow> PullRequestAuthorInfo \<times> error list" where
  "add_social new_URL al social =
     (let author = fst al; logged = snd al; u = social_url social in
      if provider social = ''bluesky'' then
        (let a1 = author\<lparr>bskyUrl := Some u\<rparr>
         in case parse_bluesky new_URL u of
              Inl e \<Rightarrow> (a1, logged @ [e])
            | Inr h \<Rightarrow> (a1\<lparr>bsky := Some h\<rparr>, logged))
      else if provider social = ''twitter'' then
        (author\<lparr>twitter := Some (split_pop ''/'' u)\<rparr>, logged)
      else if provider social = ''reddit'' then
        (author\<lparr>reddit := Some (split_pop ''/u/'' u)\<rparr>, logged)
      else if provider social = ''mastodon'' then
        (let a1 = author\<lparr>mastodonUrl := Some u\<rparr>;
             r = parse_mastodon new_URL u;
             a2 = (case fst r of None \<Rightarrow> a1 | Some h \<Rightarrow> a1\<lparr>mastodon := Some h\<rparr>)
         in (a2, logged @ (case snd r of None \<Rightarrow> [] | Some e \<Rightarrow> [e])))
      else (author, logged))"

definition githubUserToPullRequestAuthorInfo ::
  "Octokit \<Rightarrow> URL_parser \<Rightarrow> GithubUser \<Rightarrow> error + PullRequestAuthorInfo \<times> error list" where
  "githubUserToPullRequestAuthorInfo client new_URL user =
     (let author = \<lparr>username = Some (login user), author_url = Some (html_url user),
                     bsky = None, bskyUrl = None, mastodon = None, mastodonUrl = None,
                     twitter = None, reddit = None\<rparr>
      in case listSocialAccountsForUser client (login user) of
           Inl e \<Rightarrow> Inl e
         | Inr socials \<Rightarrow> Inr (foldl (add_social new_URL) (author, []) socials))"

text \<open>\<^verbatim>\<open>${x}\<close> in a template literal, for \<open>x\<close> a string or undefined.\<close>

fun interpolate :: "string option \<Rightarrow> string" where
  "interpolate None = ''undefined''"
| "interpolate (Some s) = s"

definition resolveSocialHandle :: "PullRequestAuthorInfo \<Rightarrow> string option" where
  "resolveSocialHandle user =
     (if truthy (bsky user) then Some (''@'' @ the (bsky user))
      else if truthy (mastodon user) then mastodonUrl user
      else if truthy (twitter user) then Some (''https://x.com/'' @ the (twitter user))
      else if truthy (reddit user) then Some (''https://reddit.com/u/'' @ the (reddit user))
      else Some (''https://github.com/'' @ interpolate (username user)))"

subsection \<open>getPullRequests\<close>

text \<open>
  The paging loop. \<open>rawPulls\<close> is \<open>None\<close> while the variable is \<^verbatim>\<open>undefined\<close>; the loop
  ends on an empty page, or after a page whose last element was updated before the
  watermark. The loop has no bound of its own, so the model counts iterations down from
  \<open>fuel\<close>: \<open>None\<close> means the loop was still running when the fuel ran out. The result
  holds the final values of \<^verbatim>\<open>page\<close> and \<^verbatim>\<open>rawPulls\<close>.
\<close>

fun fetch_pages ::
  "nat \<Rightarrow> Octokit \<Rightarrow> string \<Rightarrow> string \<Rightarrow> int \<Rightarrow> int \<Rightarrow> nat \<Rightarrow> RawPull list option
    \<Rightarrow> (error + nat \<times> RawPull list option) option" where
  "fetch_pages 0 client owner repo since wm page rawPulls = None"
| "fetch_pages (Suc fuel) client owner repo since wm page rawPulls =
     (case pulls_list client owner repo since page of
        Inl e \<Rightarrow> Some (Inl e)
      | Inr data \<Rightarrow>
          if length data = 0 then Some (Inr (page, rawPulls))
          else
            (let rawPulls' = Some (case rawPulls of None \<Rightarrow> data | Some acc \<Rightarrow> acc @ data)
             in if date_lt (updated_at (last data)) wm then Some (Inr (page, rawPulls'))
                else fetch_pages fuel client owner repo since wm (page + 1) rawPulls'))"

text \<open>The \<^verbatim>\<open>switch\<close> on \<^verbatim>\<open>raw.state\<close>: the state and the lifecycle date.\<close>

definition raw_lifecycle :: "RawPull \<Rightarrow> error + PullRequestState \<times> Date" where
  "raw_lifecycle raw =
     (if raw_state raw = ''open'' then Inr (Open, created_at raw)
      else if raw_state raw = ''closed'' then Inr (Closed, new_Date (closed_at raw))
      else if raw_state raw = ''merged'' then Inr (Merged, new_Date (merged_at raw))
      else if raw_state raw = ''draft'' then Inr (Draft, created_at raw)
      else Inl (Error (''Unknown PR state: '' @ raw_state raw)))"

text \<open>
  The cache \<^verbatim>\<open>users\<close> is the object literal \<^verbatim>\<open>{}\<close>, so \<^verbatim>\<open>users[login]\<close> finds the
  properties of \<^verbatim>\<open>Object.prototype\<close> before anything is stored: for these names the
  value is a function (for \<^verbatim>\<open>__proto__\<close>, the prototype itself), which is truthy.
\<close>

definition Object_prototype :: "string list" where
  "Object_prototype =
     [''constructor'', ''__defineGetter__'', ''__defineSetter__'', ''hasOwnProperty'',
      ''__lookupGetter__'', ''__lookupSetter__'', ''isPrototypeOf'', ''propertyIsEnumerable'',
      ''toString'', ''valueOf'', ''__proto__'', ''toLocaleString'']"

text \<open>\<^verbatim>\<open>users[login]\<close> is truthy while the cache holds no entry of its own.\<close>

definition inherited :: "string \<Rightarrow> bool" where
  "inherited name = (name \<in> set Object_prototype)"

text \<open>
  An inherited value read as an author: none of the fields of the interface is defined
  on it.
\<close>

definition inherited_value :: PullRequestAuthorInfo where
  "inherited_value =
     \<lparr>username = None, author_url = None, bsky = None, bskyUrl = None, mastodon = None,
      mastodonUrl = None, twitter = None, reddit = None\<rparr>"

text \<open>
  The author of one raw pull request. Every callback of \<^verbatim>\<open>rawPulls.map\<close> runs up to
  its first \<^verbatim>\<open>await\<close> before any lookup has resolved, so each tests \<^verbatim>\<open>users[login]\<close>
  while the cache holds no entry of its own. For a login that names no property of
  \<^verbatim>\<open>Object.prototype\<close> the test finds nothing: the callback makes its own lookup and
  reads back the record it has just stored. For a login that names one, the test finds
  the inherited value: the callback makes no lookup and takes that value as the author.
\<close>

definition resolve_author ::
  "Octokit \<Rightarrow> URL_parser \<Rightarrow> string option \<Rightarrow> error + PullRequestAuthorInfo option" where
  "resolve_author client new_URL authorLogin =
     (if truthy authorLogin then
        (if \<not> inherited (the authorLogin) then
           (case getByUsername client (the authorLogin) of
              Inl e \<Rightarrow> Inl e
            | Inr user \<Rightarrow>
                (case githubUserToPullRequestAuthorInfo client new_URL user of
                   Inl e \<Rightarrow> Inl e
                 | Inr al \<Rightarrow> Inr (Some (fst al))))
         else Inr (Some inherited_value))
      else Inr None)"

text \<open>The callback of \<^verbatim>\<open>rawPulls.map\<close>.\<close>

definition process_raw :: "Octokit \<Rightarrow> URL_parser \<Rightarrow> RawPull \<Rightarrow> error + PullRequestInfo" where
  "process_raw client new_URL raw =
     (case raw_lifecycle raw of
        Inl e \<Rightarrow> Inl e
      | Inr sd \<Rightarrow>
          (case resolve_author client new_URL (raw_user raw) of
             Inl e \<Rightarrow> Inl e
           | Inr author \<Rightarrow>
               Inr \<lparr>pr_number = raw_number raw, pr_title = raw_title raw,
                    pr_url = raw_html_url raw, updatedAt = snd sd, pr_state = fst sd,
                    pr_author = author\<rparr>))"

text \<open>
  \<^verbatim>\<open>Promise.all\<close> over promises that settle in the order of the list: the values in
  order, or the rejection of the earliest element that rejects.
\<close>

fun promise_all :: "(error + 'a) list \<Rightarrow> error + 'a list" where
  "promise_all [] = Inr []"
| "promise_all (Inl e # ps) = Inl e"
| "promise_all (Inr x # ps) = (case promise_all ps of Inl e \<Rightarrow> Inl e | Inr xs \<Rightarrow> Inr (x # xs))"

text \<open>
  \<^verbatim>\<open>await Promise.all(rawPulls!.map(async (raw) => ...))\<close>. A callback whose switch
  throws does so before its first \<^verbatim>\<open>await\<close>: its promise is rejected by the time
  \<^verbatim>\<open>Promise.all\<close> subscribes, while every lookup is still under way, so the earliest
  such callback decides the rejection. When no switch throws, \<^verbatim>\<open>Promise.all\<close> rejects
  with the lookup that is rejected first in time; the model takes the lookups to settle
  in the order of the list.
\<close>

definition map_callbacks :: "Octokit \<Rightarrow> URL_parser \<Rightarrow> RawPull list \<Rightarrow> error + PullRequestInfo list" where
  "map_callbacks client new_URL rawPulls =
     (case promise_all (map raw_lifecycle rawPulls) of
        Inl e \<Rightarrow> Inl e
      | Inr started \<Rightarrow> promise_all (map (process_raw client new_URL) rawPulls))"

text \<open>
  The first \<^verbatim>\<open>filter\<close>: reading \<^verbatim>\<open>pr.author.username\<close> throws a TypeError on a pull
  request without author. \<^verbatim>\<open>includes\<close> of an undefined username finds nothing in the
  list of strings.
\<close>

fun filter_ignored :: "string list \<Rightarrow> PullRequestInfo list \<Rightarrow> error + PullRequestInfo list" where
  "filter_ignored ignore [] = Inr []"
| "filter_ignored ignore (pr # prs) =
     (case pr_author pr of
        None \<Rightarrow> Inl TypeError
      | Some a \<Rightarrow>
          (case filter_ignored ignore prs of
             Inl e \<Rightarrow> Inl e
           | Inr rest \<Rightarrow>
               Inr (case username a of
                      None \<Rightarrow> pr # rest
                    | Some u \<Rightarrow> if u \<in> set ignore then rest else pr # rest)))"

text \<open>
  \<^verbatim>\<open>(startFrom ?? this._lastUpdateOn).toISOString()\<close>, the \<^verbatim>\<open>since\<close> of every page
  request of a call.
\<close>

definition effective_since :: "GithubService \<Rightarrow> Date option \<Rightarrow> error + int" where
  "effective_since g startFrom =
     (case startFrom of None \<Rightarrow> Inr (lastUpdateOn g) | Some d \<Rightarrow> toISOString d)"

text \<open>
  \<^verbatim>\<open>getPullRequests(owner, repo, startFrom)\<close>. \<open>now\<close> is the clock reading of the
  \<^verbatim>\<open>new Date()\<close> that becomes the watermark. The result is what the call returns or
  throws, together with the service afterwards; \<open>None\<close> when the paging loop has not
  ended within \<open>fuel\<close> iterations.
\<close>

definition getPullRequests ::
  "nat \<Rightarrow> Octokit \<Rightarrow> URL_parser \<Rightarrow> int \<Rightarrow> GithubService \<Rightarrow> string \<Rightarrow> string \<Rightarrow> Date option
    \<Rightarrow> ((error + PullRequestInfo list) \<times> GithubService) option" where
  "getPullRequests fuel client new_URL now g owner repo startFrom =
     (case effective_since g startFrom of
        Inl e \<Rightarrow> Some (Inl e, g)
      | Inr since \<Rightarrow>
          (case fetch_pages fuel client owner repo since (lastUpdateOn g) 0 None of
             None \<Rightarrow> None
           | Some (Inl e) \<Rightarrow> Some (Inl e, g)
           | Some (Inr (page, None)) \<Rightarrow> Some (Inl TypeError, g)
           | Some (Inr (page, Some rawPulls)) \<Rightarrow>
               (case map_callbacks client new_URL rawPulls of
                  Inl e \<Rightarrow> Some (Inl e, g)
                | Inr pulls \<Rightarrow>
                    (case filter_ignored (ignoreUsers g) pulls of
                       Inl e \<Rightarrow> Some (Inl e, g)
                     | Inr pulls1 \<Rightarrow>
                         (let pulls2 = filter (\<lambda>pr. date_ge (updatedAt pr) (lastUpdateOn g)) pulls1
                          in Some (Inr pulls2, g\<lparr>lastUpdateOn := now\<rparr>))))))"

subsection \<open>index.ts: settings and the publishing network\<close>

text \<open>
  The settings the job reads. \<open>START_FROM\<close> is the date the environment variable parses
  to (\<open>None\<close> when it is unset or empty); \<open>production\<close> is
  \<^verbatim>\<open>process.env.NODE_ENV === 'production'\<close>.
\<close>

record Settings =
  REPO_OWNER :: string
  REPO_NAME :: string
  START_FROM :: "Date option"
  production :: bool

text \<open>
  A \<^verbatim>\<open>RichtextBuilder\<close> is the sequence of segments added so far; \<^verbatim>\<open>build()\<close> returns
  the text and the facets, both determined by the segments, so a built message is
  modelled by the segments themselves. The label and the target of a link are optional
  because \<^verbatim>\<open>resolveSocialHandle\<close> can return \<^verbatim>\<open>undefined\<close> and the author's
  \<^verbatim>\<open>url\<close> can be undefined.
\<close>

datatype segment = Text string | Link "string option" "string option" | Mention string string

type_synonym RichtextBuilder = "segment list"

record ExternalEmbed =
  ext_uri :: string
  ext_title :: string
  ext_description :: string
  thumb :: string

text \<open>A post record; its \<^verbatim>\<open>createdAt\<close> (a clock reading) is not modelled.\<close>

record Skeet =
  skeet_text :: "segment list"
  skeet_embed :: ExternalEmbed

text \<open>The OpenGraph tags \<^verbatim>\<open>getPullRequestEmbed\<close> reads from the fetched page.\<close>

record OpenGraph =
  og_title :: "string option"
  og_image_alt :: "string option"
  og_image :: "string option"

text \<open>
  The requests of the composer: \<^verbatim>\<open>agent.resolveHandle\<close>, the page fetch and parse of
  \<^verbatim>\<open>getPullRequestEmbed\<close>, \<^verbatim>\<open>uploadImageFromUrl\<close> (called with \<^verbatim>\<open>imageUrl!\<close>, which may
  be undefined) and \<^verbatim>\<open>post\<close>.
\<close>

record Bluesky =
  resolveHandle :: "string \<Rightarrow> error + string"
  fetch_page :: "string \<Rightarrow> error + OpenGraph"
  uploadImageFromUrl :: "string option \<Rightarrow> error + string"
  post :: "Skeet \<Rightarrow> error + string"

text \<open>
  What the job emits for a pull request: the text of a message on the console, a post on
  the network. The other lines the job writes to the console are not modelled.
\<close>

datatype emission = Console "segment list" | Posted Skeet

definition getPullRequestEmbed :: "Bluesky \<Rightarrow> PullRequestInfo \<Rightarrow> error + PullRequestEmbed" where
  "getPullRequestEmbed bluesky pr =
     (case fetch_page bluesky (pr_url pr) of
        Inl e \<Rightarrow> Inl e
      | Inr og \<Rightarrow>
          Inr \<lparr>embed_url = pr_url pr,
               embed_title = (case og_title og of None \<Rightarrow> pr_title pr | Some t \<Rightarrow> t),
               embed_description = (case og_image_alt og of None \<Rightarrow> [] | Some d \<Rightarrow> d),
               imageUrl = og_image og\<rparr>)"

definition prEmbedToBskyEmbed :: "Bluesky \<Rightarrow> PullRequestEmbed \<Rightarrow> error + ExternalEmbed" where
  "prEmbedToBskyEmbed bluesky prEmbed =
     (case uploadImageFromUrl bluesky (imageUrl prEmbed) of
        Inl e \<Rightarrow> Inl e
      | Inr blob \<Rightarrow>
          Inr \<lparr>ext_uri = embed_url prEmbed, ext_title = embed_title prEmbed,
               ext_description = embed_description prEmbed, thumb = blob\<rparr>)"

subsection \<open>index.ts: the message templates\<close>

text \<open>
  Decimal digits of a number, for \<^verbatim>\<open>${pr.number}\<close>. (JavaScript writes an integer in
  full up to \<open>10\<^sup>2\<^sup>1\<close> and with an exponent from there on; pull-request numbers are
  far below.)
\<close>

function show_nat :: "nat \<Rightarrow> string" where
  "show_nat n =
     (if n < 10 then [''0123456789'' ! n]
      else show_nat (n div 10) @ [''0123456789'' ! (n mod 10)])"
  by pat_completeness auto
termination
  by (relation "measure id") auto

definition show_int :: "int \<Rightarrow> string" where
  "show_int i = (if i < 0 then ''-'' @ show_nat (nat (- i)) else show_nat (nat i))"

text \<open>The emoji of the templates, as their UTF-8 bytes.\<close>

definition green_heart :: string where
  "green_heart = [CHR 0xF0, CHR 0x9F, CHR 0x92, CHR 0x9A]"

definition sparkles :: string where
  "sparkles = [CHR 0xE2, CHR 0x9C, CHR 0xA8]"

definition cross_mark :: string where
  "cross_mark = [CHR 0xE2, CHR 0x9D, CHR 0x8C]"

definition pensive_face :: string where
  "pensive_face = [CHR 0xF0, CHR 0x9F, CHR 0x98, CHR 0x94]"

definition party_popper :: string where
  "party_popper = [CHR 0xF0, CHR 0x9F, CHR 0x8E, CHR 0x89]"

definition smiling_face_with_hearts :: string where
  "smiling_face_with_hearts = [CHR 0xF0, CHR 0x9F, CHR 0xA5, CHR 0xB0]"

text \<open>The link \<^verbatim>\<open>[owner/repo#number]\<close> to the pull request.\<close>

definition pr_link :: "Settings \<Rightarrow> PullRequestInfo \<Rightarrow> segment" where
  "pr_link settings pr =
     Link (Some (''['' @ REPO_OWNER settings @ ''/'' @ REPO_NAME settings @ ''#''
                  @ show_int (pr_number pr) @ '']''))
          (Some (pr_url pr))"

text \<open>
  The reference to the author: a mention when the handle was resolved to an identifier,
  else a link through \<^verbatim>\<open>resolveSocialHandle\<close>.
\<close>

definition author_reference :: "PullRequestAuthorInfo \<Rightarrow> string option \<Rightarrow> segment" where
  "author_reference author bskyId =
     (if truthy bskyId then Mention (''@'' @ the (bsky author)) (the bskyId)
      else Link (resolveSocialHandle author) (author_url author))"

text \<open>
  The \<^verbatim>\<open>switch\<close> on \<^verbatim>\<open>pr.state\<close>: the value of the variable \<^verbatim>\<open>b\<close> after it. The
  \<^verbatim>\<open>draft\<close> case assigns nothing, so \<^verbatim>\<open>b\<close> keeps the value it had.
\<close>

fun compose ::
  "Settings \<Rightarrow> RichtextBuilder option \<Rightarrow> PullRequestInfo \<Rightarrow> PullRequestAuthorInfo
    \<Rightarrow> string option \<Rightarrow> PullRequestState \<Rightarrow> RichtextBuilder option" where
  "compose settings b pr author bskyId Open =
     Some [Text (green_heart @ '' \"'' @ pr_title pr @ ''\"''), Text '' '',
           pr_link settings pr, Text [CHR 0x0A], Text ''opened by '',
           author_reference author bskyId,
           Text ('' is waiting for review '' @ sparkles)]"
| "compose settings b pr author bskyId Closed =
     Some [Text (cross_mark @ '' \"'' @ pr_title pr @ ''\"''), Text '' '',
           pr_link settings pr, Text [CHR 0x0A], Text ''by '',
           author_reference author bskyId,
           Text ('' was closed without merging '' @ pensive_face)]"
| "compose settings b pr author bskyId Merged =
     Some [Text (party_popper @ '' \"'' @ pr_title pr @ ''\"''), Text '' '',
           pr_link settings pr, Text [CHR 0x0A], Text ''by '',
           author_reference author bskyId,
           Text ('' was merged! Hooray! '' @ smiling_face_with_hearts)]"
| "compose settings b pr author bskyId Draft = b"

subsection \<open>index.ts: the publishing loop\<close>

text \<open>
  One iteration of \<^verbatim>\<open>for(const pr of prs)\<close>. \<open>b\<close> is the variable declared before the
  loop, so it is passed from one iteration to the next. The result is what the iteration
  throws, or the value of \<open>b\<close> after it, together with what the iteration emitted.
\<close>

definition publish_one ::
  "Settings \<Rightarrow> Bluesky \<Rightarrow> RichtextBuilder option \<Rightarrow> PullRequestInfo
    \<Rightarrow> (error + RichtextBuilder option) \<times> emission list" where
  "publish_one settings bluesky b pr =
     (case pr_author pr of
        None \<Rightarrow> (Inl TypeError, [])
      | Some author \<Rightarrow>
          (case (if truthy (bsky author)
                 then (case resolveHandle bluesky (the (bsky author)) of
                         Inl e \<Rightarrow> Inl e
                       | Inr did \<Rightarrow> Inr (Some did))
                 else Inr None) of
             Inl e \<Rightarrow> (Inl e, [])
           | Inr bskyId \<Rightarrow>
               (case compose settings b pr author bskyId (pr_state pr) of
                  None \<Rightarrow> (Inr None, [])
                | Some segs \<Rightarrow>
                    if production settings then
                      (case getPullRequestEmbed bluesky pr of
                         Inl e \<Rightarrow> (Inl e, [Console segs])
                       | Inr prEmbed \<Rightarrow>
                           (case prEmbedToBskyEmbed bluesky prEmbed of
                              Inl e \<Rightarrow> (Inl e, [Console segs])
                            | Inr ext \<Rightarrow>
                                (let skeet = \<lparr>skeet_text = segs, skeet_embed = ext\<rparr>
                                 in case post bluesky skeet of
                                      Inl e \<Rightarrow> (Inl e, [Console segs])
                                    | Inr uri \<Rightarrow> (Inr (Some segs), [Console segs, Posted skeet]))))
                    else (Inr (Some segs), [Console segs]))))"

text \<open>The loop: it stops at the first iteration that throws.\<close>

fun publish_all ::
  "Settings \<Rightarrow> Bluesky \<Rightarrow> RichtextBuilder option \<Rightarrow> PullRequestInfo list
    \<Rightarrow> error option \<times> emission list" where
  "publish_all settings bluesky b [] = (None, [])"
| "publish_all settings bluesky b (pr # prs) =
     (case publish_one settings bluesky b pr of
        (Inl e, out) \<Rightarrow> (Some e, out)
      | (Inr b', out) \<Rightarrow>
          (let r = publish_all settings bluesky b' prs in (fst r, out @ snd r)))"

subsection \<open>index.ts: the update job\<close>

text \<open>
  The state the job works on: the module variable \<^verbatim>\<open>mutex\<close>, the GitHub service, and
  everything emitted so far.
\<close>

record Engine =
  mutex :: bool
  github :: GithubService
  emitted :: "emission list"

text \<open>
  \<^verbatim>\<open>update\<close> in the three pieces between which it awaits. First the test of the mutex,
  which runs without interruption: \<open>False\<close> when the job returns at once.
\<close>

definition update_enter :: "Engine \<Rightarrow> bool \<times> Engine" where
  "update_enter st = (if mutex st then (False, st) else (True, st\<lparr>mutex := True\<rparr>))"

text \<open>
  The \<^verbatim>\<open>try\<close>/\<^verbatim>\<open>catch\<close> around \<^verbatim>\<open>getPullRequests\<close>, given what the call returned or threw:
  \<open>None\<close> when the job returns from the \<^verbatim>\<open>catch\<close>, else the batch.
\<close>

definition update_fetched ::
  "error + PullRequestInfo list \<Rightarrow> Engine \<Rightarrow> PullRequestInfo list option \<times> Engine" where
  "update_fetched r st =
     (case r of
        Inl e \<Rightarrow> (None, st\<lparr>mutex := False\<rparr>)
      | Inr prs \<Rightarrow> (Some prs, st))"

text \<open>
  The second \<^verbatim>\<open>try\<close>/\<^verbatim>\<open>catch\<close> with the loop, and the assignment after it.
\<close>

definition update_publish :: "Settings \<Rightarrow> Bluesky \<Rightarrow> PullRequestInfo list \<Rightarrow> Engine \<Rightarrow> Engine" where
  "update_publish settings bluesky prs st =
     (let r = publish_all settings bluesky None prs;
          st1 = st\<lparr>emitted := emitted st @ snd r\<rparr>;
          st2 = (case fst r of None \<Rightarrow> st1 | Some e \<Rightarrow> st1\<lparr>mutex := False\<rparr>)
      in st2\<lparr>mutex := False\<rparr>)"

text \<open>
  One invocation of \<^verbatim>\<open>update\<close> run to its end with nothing else in between; \<open>None\<close>
  when the paging loop of \<^verbatim>\<open>getPullRequests\<close> has not ended within \<open>fuel\<close> iterations.
\<close>

definition update ::
  "nat \<Rightarrow> Settings \<Rightarrow> Octokit \<Rightarrow> URL_parser \<Rightarrow> Bluesky \<Rightarrow> int \<Rightarrow> Engine \<Rightarrow> Engine option" where
  "update fuel settings client new_URL bluesky now st =
     (case update_enter st of
        (False, st') \<Rightarrow> Some st'
      | (True, st1) \<Rightarrow>
          (case getPullRequests fuel client new_URL now (github st1)
                  (REPO_OWNER settings) (REPO_NAME settings) (START_FROM settings) of
             None \<Rightarrow> None
           | Some (r, g') \<Rightarrow>
               (case update_fetched r (st1\<lparr>github := g'\<rparr>) of
                  (None, st2) \<Rightarrow> Some st2
                | (Some prs, st2) \<Rightarrow> Some (update_publish settings bluesky prs st2))))"

subsection \<open>Overlapping invocations of the job\<close>

text \<open>
  The scheduler may invoke \<^verbatim>\<open>update\<close> while an earlier invocation is suspended at an
  \<^verbatim>\<open>await\<close>. An invocation that has passed the mutex is in flight: it waits for
  \<^verbatim>\<open>getPullRequests\<close>, or it is in the publishing loop with its batch. A step of the
  system is a tick of the scheduler, or one invocation in flight going on; the requests
  a step makes may answer in any way.
\<close>

datatype phase = Fetching | Publishing "PullRequestInfo list"

record System =
  engine :: Engine
  in_flight :: "phase list"

definition remove_nth :: "nat \<Rightarrow> 'a list \<Rightarrow> 'a list" where
  "remove_nth i xs = take i xs @ drop (Suc i) xs"

inductive step :: "Settings \<Rightarrow> System \<Rightarrow> System \<Rightarrow> bool" for settings :: Settings where
  tick:
    "update_enter (engine s) = (entered, e')
      \<Longrightarrow> step settings s
            \<lparr>engine = e', in_flight = in_flight s @ (if entered then [Fetching] else [])\<rparr>"
| fetched:
    "i < length (in_flight s) \<Longrightarrow> in_flight s ! i = Fetching
      \<Longrightarrow> getPullRequests fuel client new_URL now (github (engine s))
            (REPO_OWNER settings) (REPO_NAME settings) (START_FROM settings) = Some (r, g')
      \<Longrightarrow> update_fetched r ((engine s)\<lparr>github := g'\<rparr>) = (cont, e')
      \<Longrightarrow> step settings s
            \<lparr>engine = e',
             in_flight = (case cont of None \<Rightarrow> remove_nth i (in_flight s)
                          | Some prs \<Rightarrow> (in_flight s)[i := Publishing prs])\<rparr>"
| published:
    "i < length (in_flight s) \<Longrightarrow> in_flight s ! i = Publishing prs
      \<Longrightarrow> step settings s
            \<lparr>engine = update_publish settings bluesky prs (engine s),
             in_flight = remove_nth i (in_flight s)\<rparr>"

text \<open>The system when the scheduler starts: the mutex is free, nothing is in flight.\<close>

definition start :: "GithubService \<Rightarrow> System" where
  "start g = \<lparr>engine = \<lparr>mutex = False, github = g, emitted = []\<rparr>, in_flight = []\<rparr>"

definition reachable :: "Settings \<Rightarrow> GithubService \<Rightarrow> System \<Rightarrow> bool" where
  "reachable settings g s = (step settings)\<^sup>*\<^sup>* (start g) s"

subsection \<open>Sequences of calls of getPullRequests\<close>

text \<open>
  A call of \<^verbatim>\<open>getPullRequests\<close> on one service, with the answers of the network during
  it and \<open>call_now\<close>, what the wall clock reads when the call reaches \<^verbatim>\<open>new Date()\<close> on
  its last line. The reading is any number: nothing in the code keeps the wall clock
  from being set back between two readings.
\<close>

record call =
  call_fuel :: nat
  call_client :: Octokit
  call_new_URL :: URL_parser
  call_now :: int
  call_owner :: string
  call_repo :: string
  call_startFrom :: "Date option"

text \<open>
  The service after each call of the sequence. The sequence ends at a call whose paging
  loop does not end.
\<close>

fun run_calls :: "GithubService \<Rightarrow> call list \<Rightarrow> GithubService list" where
  "run_calls g [] = []"
| "run_calls g (c # cs) =
     (case getPullRequests (call_fuel c) (call_client c) (call_new_URL c) (call_now c) g
             (call_owner c) (call_repo c) (call_startFrom c) of
        None \<Rightarrow> []
      | Some (r, g') \<Rightarrow> g' # run_calls g' cs)"

text \<open>
  The watermarks of a service whose constructor read the clock at \<open>t\<close>: the one the
  constructor sets, then the one after each call.
\<close>

definition watermarks :: "int \<Rightarrow> string list \<Rightarrow> call list \<Rightarrow> int list" where
  "watermarks t ignore cs =
     map lastUpdateOn (new_GithubService t ignore # run_calls (new_GithubService t ignore) cs)"

subsection \<open>The pages a call has read\<close>

text \<open>
  The content of page \<open>p\<close> as the feed serves it (nothing where the request is
  rejected), and the content of the pages \<open>0\<close> to \<open>page\<close> one after the other.
\<close>

definition page_data :: "Octokit \<Rightarrow> string \<Rightarrow> string \<Rightarrow> int \<Rightarrow> nat \<Rightarrow> RawPull list" where
  "page_data client owner repo since p =
     (case pulls_list client owner repo since p of Inl e \<Rightarrow> [] | Inr data \<Rightarrow> data)"

definition pages_upto :: "Octokit \<Rightarrow> string \<Rightarrow> string \<Rightarrow> int \<Rightarrow> nat \<Rightarrow> RawPull list" where
  "pages_upto client owner repo since page =
     concat (map (page_data client owner repo since) [0..<Suc page])"

text \<open>
  The paging loop goes on after page \<open>p\<close>: the request succeeds, the page is not empty
  and its last element was not updated before the watermark.
\<close>

definition goes_on :: "Octokit \<Rightarrow> string \<Rightarrow> string \<Rightarrow> int \<Rightarrow> int \<Rightarrow> nat \<Rightarrow> bool" where
  "goes_on client owner repo since wm p =
     (case pulls_list client owner repo since p of
        Inl e \<Rightarrow> False
      | Inr data \<Rightarrow> data \<noteq> [] \<and> \<not> date_lt (updated_at (last data)) wm)"

subsection \<open>Concrete inputs\<close>

text \<open>
  A small world to run the code in: a repository \<^verbatim>\<open>o/r\<close>, a service constructed at
  clock reading 100 that ignores the user \<^verbatim>\<open>bot\<close>, and feeds given page by page.
\<close>

definition ex_raw :: "int \<Rightarrow> string \<Rightarrow> string option \<Rightarrow> int \<Rightarrow> RawPull" where
  "ex_raw n st user t =
     \<lparr>raw_number = n, raw_title = ''Fix'', raw_html_url = ''https://github.com/o/r/pull/'' @ show_int n,
      raw_state = st, created_at = Valid_Date t, updated_at = Valid_Date t,
      closed_at = None, merged_at = None, raw_user = user\<rparr>"

definition ex_user :: "string \<Rightarrow> error + GithubUser" where
  "ex_user u = Inr \<lparr>login = u, html_url = ''https://github.com/'' @ u\<rparr>"

definition ex_client ::
  "(nat \<Rightarrow> error + RawPull list) \<Rightarrow> (string \<Rightarrow> error + GithubUser)
    \<Rightarrow> (string \<Rightarrow> error + SocialAccount list) \<Rightarrow> Octokit" where
  "ex_client pages users socials =
     \<lparr>pulls_list = (\<lambda>owner repo since page. pages page), getByUsername = users,
      listSocialAccountsForUser = socials\<rparr>"

definition no_socials :: "string \<Rightarrow> error + SocialAccount list" where
  "no_socials u = Inr []"

definition ex_new_URL :: URL_parser where
  "ex_new_URL u =
     (if u = ''https://bsky.app/profile/alice.bsky.social''
      then Some \<lparr>hostname = ''bsky.app'', pathname = ''/profile/alice.bsky.social''\<rparr>
      else if u = ''https://mastodon.social/@''
      then Some \<lparr>hostname = ''mastodon.social'', pathname = ''/@''\<rparr>
      else None)"

definition g100 :: GithubService where
  "g100 = new_GithubService 100 [''bot'']"

definition ex_author :: "string \<Rightarrow> PullRequestAuthorInfo" where
  "ex_author u =
     \<lparr>username = Some u, author_url = Some (''https://github.com/'' @ u), bsky = None,
      bskyUrl = None,
      mastodon = None, mastodonUrl = None, twitter = None, reddit = None\<rparr>"

definition ex_pr :: "int \<Rightarrow> PullRequestState \<Rightarrow> string \<Rightarrow> int \<Rightarrow> PullRequestInfo" where
  "ex_pr n st u t =
     \<lparr>pr_number = n, pr_title = ''Fix'', pr_url = ''https://github.com/o/r/pull/'' @ show_int n,
      updatedAt = Valid_Date t, pr_state = st, pr_author = Some (ex_author u)\<rparr>"

text \<open>
  One page with a pull request of \<^verbatim>\<open>alice\<close>, one of the ignored \<^verbatim>\<open>bot\<close>, and one of
  \<^verbatim>\<open>alice\<close> from before the watermark, which ends the paging.
\<close>

definition feed_one_page :: "nat \<Rightarrow> error + RawPull list" where
  "feed_one_page page =
     (if page = 0
      then Inr [ex_raw 2 ''open'' (Some ''bot'') 160, ex_raw 1 ''open'' (Some ''alice'') 150,
                ex_raw 3 ''open'' (Some ''alice'') 90]
      else Inr [])"

text \<open>A feed that serves pull request 42 on page 0 and again on page 1.\<close>

definition feed_repeating :: "nat \<Rightarrow> error + RawPull list" where
  "feed_repeating page =
     (if page < 2 then Inr [ex_raw 42 ''open'' (Some ''alice'') 150] else Inr [])"

text \<open>A feed whose second page request is rejected.\<close>

definition feed_failing :: "nat \<Rightarrow> error + RawPull list" where
  "feed_failing page =
     (if page = 0 then Inr [ex_raw 4 ''open'' (Some ''alice'') 320] else Inl RequestError)"

text \<open>A feed whose first page is empty.\<close>

definition feed_empty :: "nat \<Rightarrow> error + RawPull list" where
  "feed_empty page = Inr []"

text \<open>
  A closed pull request without close time, updated after the watermark, before an open
  one and one from before the watermark.
\<close>

definition feed_closed_null :: "nat \<Rightarrow> error + RawPull list" where
  "feed_closed_null page =
     (if page = 0
      then Inr [ex_raw 7 ''closed'' (Some ''alice'') 150, ex_raw 1 ''open'' (Some ''alice'') 140,
                ex_raw 3 ''open'' (Some ''alice'') 90]
      else Inr [])"

text \<open>An open pull request, then a draft, then one from before the watermark.\<close>

definition feed_open_then_draft :: "nat \<Rightarrow> error + RawPull list" where
  "feed_open_then_draft page =
     (if page = 0
      then Inr [ex_raw 1 ''open'' (Some ''alice'') 160, ex_raw 2 ''draft'' (Some ''alice'') 150,
                ex_raw 3 ''open'' (Some ''alice'') 90]
      else Inr [])"

definition users_failing :: "string \<Rightarrow> error + GithubUser" where
  "users_failing u = Inl RequestError"

text \<open>
  A GitHub profile that links a Mastodon account without handle and a well-formed
  Bluesky account.
\<close>

definition socials_empty_mastodon :: "string \<Rightarrow> error + SocialAccount list" where
  "socials_empty_mastodon u =
     Inr [\<lparr>provider = ''mastodon'', social_url = ''https://mastodon.social/@''\<rparr>,
          \<lparr>provider = ''bluesky'',
           social_url = ''https://bsky.app/profile/alice.bsky.social''\<rparr>]"

definition ex_settings :: Settings where
  "ex_settings = \<lparr>REPO_OWNER = ''o'', REPO_NAME = ''r'', START_FROM = None, production = True\<rparr>"

definition ex_bluesky :: Bluesky where
  "ex_bluesky =
     \<lparr>resolveHandle = (\<lambda>h. Inr ''did:plc:abc''),
      fetch_page = (\<lambda>u. Inr \<lparr>og_title = None, og_image_alt = None, og_image = Some ''img''\<rparr>),
      uploadImageFromUrl = (\<lambda>u. Inr ''blob''),
      post = (\<lambda>s. Inr ''at://post'')\<rparr>"

text \<open>
  The message for the opening of pull request 1 by \<^verbatim>\<open>alice\<close>, and the link preview
  of pull request \<open>n\<close>.
\<close>

definition ex_message :: "segment list" where
  "ex_message =
     [Text (green_heart @ '' \"Fix\"''), Text '' '',
      Link (Some ''[o/r#1]'') (Some ''https://github.com/o/r/pull/1''), Text [CHR 0x0A],
      Text ''opened by '',
      Link (Some ''https://github.com/alice'') (Some ''https://github.com/alice''),
      Text ('' is waiting for review '' @ sparkles)]"

definition ex_embed :: "int \<Rightarrow> ExternalEmbed" where
  "ex_embed n =
     \<lparr>ext_uri = ''https://github.com/o/r/pull/'' @ show_int n, ext_title = ''Fix'',
      ext_description = [], thumb = ''blob''\<rparr>"

definition ex_engine :: Engine where
  "ex_engine = \<lparr>mutex = False, github = g100, emitted = []\<rparr>"

text \<open>
  Two calls on the service: one that reads the one-page feed and reaches its last line
  when the clock reads 300, then one whose second page request is rejected, at 350.
\<close>

definition ex_calls :: "call list" where
  "ex_calls =
     [\<lparr>call_fuel = 5, call_client = ex_client feed_one_page ex_user no_socials,
       call_new_URL = ex_new_URL, call_now = 300, call_owner = ''o'', call_repo = ''r'',
       call_startFrom = None\<rparr>,
      \<lparr>call_fuel = 5, call_client = ex_client feed_failing ex_user no_socials,
       call_new_URL = ex_new_URL, call_now = 350, call_owner = ''o'', call_repo = ''r'',
       call_startFrom = None\<rparr>]"

text \<open>
  One call on the service after the wall clock was set back: the constructor read 100,
  the call reads 50.
\<close>

definition ex_calls_clock_set_back :: "call list" where
  "ex_calls_clock_set_back =
     [\<lparr>call_fuel = 5, call_client = ex_client feed_one_page ex_user no_socials,
       call_new_URL = ex_new_URL, call_now = 50, call_owner = ''o'', call_repo = ''r'',
       call_startFrom = None\<rparr>]"

text \<open>
  A pull request of the GitHub user \<^verbatim>\<open>constructor\<close>, and a service that is told to
  ignore that user.
\<close>

definition feed_constructor :: "nat \<Rightarrow> error + RawPull list" where
  "feed_constructor page =
     (if page = 0
      then Inr [ex_raw 9 ''open'' (Some ''constructor'') 150,
                ex_raw 3 ''open'' (Some ''alice'') 90]
      else Inr [])"

definition g_ignoring_constructor :: GithubService where
  "g_ignoring_constructor = new_GithubService 100 [''constructor'']"

definition ex_pr_constructor :: PullRequestInfo where
  "ex_pr_constructor =
     \<lparr>pr_number = 9, pr_title = ''Fix'', pr_url = ''https://github.com/o/r/pull/9'',
      updatedAt = Valid_Date 150, pr_state = Open, pr_author = Some inherited_value\<rparr>"

text \<open>A publishing network that rejects every post.\<close>

definition ex_bluesky_rejecting :: Bluesky where
  "ex_bluesky_rejecting = ex_bluesky\<lparr>post := \<lambda>s. Inl RequestError\<rparr>"

text \<open>The system after the first tick: the mutex is taken, one invocation waits.\<close>

definition ex_system_busy :: System where
  "ex_system_busy = \<lparr>engine = ex_engine\<lparr>mutex := True\<rparr>, in_flight = [Fetching]\<rparr>"

text \<open>A Bluesky service before \<^verbatim>\<open>init\<close>, and a login that succeeds.\<close>

definition ex_bluesky_service :: BlueskyService where
  "ex_bluesky_service =
     \<lparr>isInitialized = False, loginSettings = (''bot.bsky.social'', ''secret''), agent = None\<rparr>"

definition login_ok :: "string \<times> string \<Rightarrow> error + unit" where
  "login_ok settings = Inr ()"

section \<open>Properties of getPullRequests\<close>

subsection \<open>The shape of a call\<close>

lemma filter_ignored_sound:
  "filter_ignored ign prs = Inr out \<Longrightarrow>
     \<forall>pr \<in> set out.
        (\<exists>a. pr_author pr = Some a \<and> (\<forall>u. username a = Some u \<longrightarrow> u \<notin> set ign))
        \<and> pr \<in> set prs"
  by (induction prs arbitrary: out) (auto split: option.splits sum.splits if_splits)

lemma filter_ignored_subseq:
  "filter_ignored ign prs = Inr out \<Longrightarrow> subseq out prs"
  by (induction prs arbitrary: out) (auto split: option.splits sum.splits if_splits)

lemma promise_all_map:
  "promise_all (map f xs) = Inr ys \<Longrightarrow> map Inr ys = map f xs"
proof (induction xs arbitrary: ys)
  case Nil
  then show ?case by simp
next
  case (Cons a xs)
  then show ?case
    by (cases "f a") (auto split: sum.splits)
qed

lemma promise_all_Inl:
  "x \<in> set xs \<Longrightarrow> f x = Inl e \<Longrightarrow> \<exists>e'. promise_all (map f xs) = Inl e'"
proof (induction xs)
  case Nil
  then show ?case by simp
next
  case (Cons a xs)
  then show ?case
    by (cases "f a") (auto split: sum.splits)
qed

lemma map_callbacks_Inr:
  "map_callbacks client new_URL raws = Inr pulls
    \<Longrightarrow> promise_all (map (process_raw client new_URL) raws) = Inr pulls"
  by (simp add: map_callbacks_def split: sum.splits)

lemma map_callbacks_Inl:
  assumes "raw \<in> set raws" and "process_raw client new_URL raw = Inl e"
  shows "\<exists>e'. map_callbacks client new_URL raws = Inl e'"
proof -
  from promise_all_Inl [of raw raws "process_raw client new_URL" e, OF assms]
  show ?thesis
    by (auto simp: map_callbacks_def split: sum.splits)
qed

lemma process_raw_number:
  "process_raw client new_URL raw = Inr pr \<Longrightarrow> pr_number pr = raw_number raw"
  by (auto simp: process_raw_def split: sum.splits)

text \<open>A call that throws leaves the service as it was.\<close>

lemma getPullRequests_Inl:
  "getPullRequests fuel client new_URL now g owner repo startFrom = Some (Inl e, g') \<Longrightarrow> g' = g"
  by (auto simp: getPullRequests_def split: sum.splits option.splits prod.splits)

text \<open>A call that returns has gone through every stage.\<close>

lemma getPullRequests_Inr:
  assumes "getPullRequests fuel client new_URL now g owner repo startFrom = Some (Inr batch, g')"
  shows "\<exists>since page rawPulls pulls pulls1.
            effective_since g startFrom = Inr since \<and>
            fetch_pages fuel client owner repo since (lastUpdateOn g) 0 None
              = Some (Inr (page, Some rawPulls)) \<and>
            map_callbacks client new_URL rawPulls = Inr pulls \<and>
            filter_ignored (ignoreUsers g) pulls = Inr pulls1 \<and>
            batch = filter (\<lambda>pr. date_ge (updatedAt pr) (lastUpdateOn g)) pulls1 \<and>
            g' = g\<lparr>lastUpdateOn := now\<rparr>"
  using assms
  by (auto simp: getPullRequests_def split: sum.splits option.splits prod.splits)

lemma getPullRequests_watermark:
  "getPullRequests fuel client new_URL now g owner repo startFrom = Some (r, g') \<Longrightarrow>
     lastUpdateOn g' = lastUpdateOn g \<or> lastUpdateOn g' = now"
  by (cases r) (auto dest: getPullRequests_Inl getPullRequests_Inr)

subsection \<open>The returned batch\<close>

text \<open>
  What the two filters give: every pull request of a returned batch has a lifecycle date
  that is not older than the watermark the service had before the call, and an author
  value whose \<^verbatim>\<open>username\<close>, if it has one, is not in the ignore list.
\<close>

lemma batch_dates_and_usernames:
  assumes "getPullRequests fuel client new_URL now g owner repo startFrom = Some (Inr batch, g')"
  shows "\<forall>pr \<in> set batch.
           date_ge (updatedAt pr) (lastUpdateOn g) \<and>
           (\<exists>a. pr_author pr = Some a
                \<and> (\<forall>u. username a = Some u \<longrightarrow> u \<notin> set (ignoreUsers g)))"
proof -
  from getPullRequests_Inr [OF assms] obtain pulls pulls1 where
    ign: "filter_ignored (ignoreUsers g) pulls = Inr pulls1" and
    batch: "batch = filter (\<lambda>pr. date_ge (updatedAt pr) (lastUpdateOn g)) pulls1"
    by blast
  from filter_ignored_sound [OF ign] batch show ?thesis
    by auto
qed

text \<open>
  An author that is looked up carries the username of the profile, so the ignore list
  applies to it. A login that names a property of \<^verbatim>\<open>Object.prototype\<close> is not looked
  up: its author is the inherited value, without username, and the first filter lets it
  through whatever the ignore list says.
\<close>

lemma inherited_login_is_not_looked_up:
  "name \<noteq> [] \<Longrightarrow> inherited name
    \<Longrightarrow> resolve_author client new_URL (Some name) = Inr (Some inherited_value)"
  by (simp add: resolve_author_def)

lemma inherited_value_passes_ignore_list:
  "pr_author pr = Some inherited_value \<Longrightarrow> filter_ignored ignore prs = Inr rest
    \<Longrightarrow> filter_ignored ignore (pr # prs) = Inr (pr # rest)"
  by (simp add: inherited_value_def)

text \<open>
  C1. The code does not do what the claim says for the ignore list. The feed holds an
  open pull request of the GitHub user \<^verbatim>\<open>constructor\<close>, from after the watermark, and
  the service is told to ignore \<^verbatim>\<open>constructor\<close>. The test \<^verbatim>\<open>!users[authorLogin]\<close> finds
  \<^verbatim>\<open>Object.prototype.constructor\<close> in the empty cache, so no profile is looked up, the
  author of the pull request has no username, and the pull request of the ignored user
  is in the batch. (The half of the claim about the watermark holds: see
  \<open>batch_dates_and_usernames\<close>.)
\<close>

theorem ignored_user_constructor_stays_in_batch:
  "raw_user (ex_raw 9 ''open'' (Some ''constructor'') 150) = Some ''constructor''
   \<and> ''constructor'' \<in> set (ignoreUsers g_ignoring_constructor)
   \<and> getPullRequests 5 (ex_client feed_constructor ex_user no_socials) ex_new_URL 300
        g_ignoring_constructor ''o'' ''r'' None
      = Some (Inr [ex_pr_constructor], g_ignoring_constructor\<lparr>lastUpdateOn := 300\<rparr>)
   \<and> pr_number ex_pr_constructor = 9
   \<and> pr_author ex_pr_constructor = Some inherited_value"
  by code_simp

subsection \<open>The watermark over a sequence of calls\<close>

text \<open>A call that throws leaves the watermark, a call that returns sets it to its reading.\<close>

lemma getPullRequests_sets_watermark:
  "getPullRequests fuel client new_URL now g owner repo startFrom = Some (r, g')
    \<Longrightarrow> lastUpdateOn g' = (if isl r then lastUpdateOn g else now)"
  by (cases r) (auto dest: getPullRequests_Inl getPullRequests_Inr)

lemma run_calls_sorted:
  "lastUpdateOn g \<le> t \<Longrightarrow> sorted (t # map call_now cs)
    \<Longrightarrow> sorted (lastUpdateOn g # map lastUpdateOn (run_calls g cs))"
proof (induction cs arbitrary: t g)
  case Nil
  then show ?case by simp
next
  case (Cons c cs)
  from Cons.prems(2) have now: "t \<le> call_now c" and rest: "sorted (call_now c # map call_now cs)"
    by simp_all
  show ?case
  proof (cases "getPullRequests (call_fuel c) (call_client c) (call_new_URL c) (call_now c) g
                  (call_owner c) (call_repo c) (call_startFrom c)")
    case None
    then show ?thesis by simp
  next
    case (Some rg)
    obtain r g' where rg: "rg = (r, g')" by (cases rg)
    from getPullRequests_watermark [OF Some [unfolded rg]] Cons.prems(1) now
    have le: "lastUpdateOn g \<le> lastUpdateOn g'" and le': "lastUpdateOn g' \<le> call_now c"
      by auto
    from Cons.IH [OF le' rest]
    have "sorted (lastUpdateOn g' # map lastUpdateOn (run_calls g' cs))" .
    with le
    have "sorted (lastUpdateOn g # lastUpdateOn g' # map lastUpdateOn (run_calls g' cs))"
      by auto
    with Some rg show ?thesis by simp
  qed
qed

text \<open>
  C2, as the code has it. A call that throws leaves the watermark as it was; a call that
  returns sets it to the reading of the wall clock on its last line, without comparing
  the reading with the old watermark. So over a sequence of calls the watermark after
  call \<open>n + 1\<close> is at least the watermark after call \<open>n\<close> (entry 0 is the watermark the
  constructor sets) provided the readings of the clock, from the constructor's on, never
  go down.
\<close>

theorem watermark_follows_the_clock:
  "(getPullRequests fuel client new_URL now g owner repo startFrom = Some (r, g')
      \<longrightarrow> lastUpdateOn g' = (if isl r then lastUpdateOn g else now))
   \<and> (sorted (t # map call_now cs) \<and> Suc n < length (watermarks t ignore cs)
      \<longrightarrow> watermarks t ignore cs ! n \<le> watermarks t ignore cs ! Suc n)"
proof (intro conjI impI)
  assume "getPullRequests fuel client new_URL now g owner repo startFrom = Some (r, g')"
  then show "lastUpdateOn g' = (if isl r then lastUpdateOn g else now)"
    by (rule getPullRequests_sets_watermark)
next
  assume a: "sorted (t # map call_now cs) \<and> Suc n < length (watermarks t ignore cs)"
  then have "sorted (watermarks t ignore cs)"
    unfolding watermarks_def using run_calls_sorted [of "new_GithubService t ignore" t cs]
    by (simp add: new_GithubService_def)
  with a show "watermarks t ignore cs ! n \<le> watermarks t ignore cs ! Suc n"
    by (simp add: sorted_iff_nth_Suc)
qed

text \<open>
  The service constructed at 100, a call that returns at 300 and a call that throws at
  350: the watermarks are 100, 300, 300.
\<close>

theorem watermark_follows_the_clock_witness:
  "getPullRequests 5 (ex_client feed_one_page ex_user no_socials) ex_new_URL 300 g100
       ''o'' ''r'' None
     = Some (Inr [ex_pr 1 Open ''alice'' 150], g100\<lparr>lastUpdateOn := 300\<rparr>)
   \<and> lastUpdateOn (g100\<lparr>lastUpdateOn := 300\<rparr>) = 300
   \<and> sorted (100 # map call_now ex_calls)
   \<and> Suc 0 < length (watermarks 100 [''bot''] ex_calls)
   \<and> watermarks 100 [''bot''] ex_calls ! 0 \<le> watermarks 100 [''bot''] ex_calls ! Suc 0
   \<and> watermarks 100 [''bot''] ex_calls = [100, 300, 300]"
proof -
  have run: "getPullRequests 5 (ex_client feed_one_page ex_user no_socials) ex_new_URL 300 g100
       ''o'' ''r'' None
     = Some (Inr [ex_pr 1 Open ''alice'' 150], g100\<lparr>lastUpdateOn := 300\<rparr>)"
    by code_simp
  from run watermark_follows_the_clock
    [where fuel = 5 and client = "ex_client feed_one_page ex_user no_socials"
       and new_URL = ex_new_URL and now = 300 and g = g100 and owner = "''o''"
       and repo = "''r''" and startFrom = None and r = "Inr [ex_pr 1 Open ''alice'' 150]"
       and g' = "g100\<lparr>lastUpdateOn := 300\<rparr>"]
  have set: "lastUpdateOn (g100\<lparr>lastUpdateOn := 300\<rparr>) = 300"
    by simp
  have clock: "sorted (100 # map call_now ex_calls)"
    by (simp add: ex_calls_def)
  have ws: "watermarks 100 [''bot''] ex_calls = [100, 300, 300]"
    by code_simp
  then have len: "Suc 0 < length (watermarks 100 [''bot''] ex_calls)"
    by simp
  from watermark_follows_the_clock [where t = 100 and cs = ex_calls and n = 0
      and ignore = "[''bot'']"] clock len
  have "watermarks 100 [''bot''] ex_calls ! 0 \<le> watermarks 100 [''bot''] ex_calls ! Suc 0"
    by blast
  with run set clock len ws show ?thesis
    by simp
qed

text \<open>
  C2 as stated fails: the constructor reads the clock at 100, the clock is set back, and
  a call that returns reads 50. The watermark goes from 100 to 50.
\<close>

theorem watermark_moves_backward_when_clock_does:
  "watermarks 100 [''bot''] ex_calls_clock_set_back = [100, 50]
   \<and> \<not> watermarks 100 [''bot''] ex_calls_clock_set_back ! 0
        \<le> watermarks 100 [''bot''] ex_calls_clock_set_back ! Suc 0"
  by code_simp

subsection \<open>Failures\<close>

text \<open>
  The paging loop that finds every page before \<open>p\<close> worth going on from, and the
  request for page \<open>p\<close> rejected, ends with that rejection.
\<close>

lemma fetch_pages_reaches_failure:
  "\<forall>q. page \<le> q \<and> q < p \<longrightarrow> goes_on client owner repo since wm q
    \<Longrightarrow> page \<le> p \<Longrightarrow> pulls_list client owner repo since p = Inl e \<Longrightarrow> p - page < fuel
    \<Longrightarrow> fetch_pages fuel client owner repo since wm page acc = Some (Inl e)"
proof (induction fuel arbitrary: page acc)
  case 0
  then show ?case by simp
next
  case (Suc fuel)
  show ?case
  proof (cases "page = p")
    case True
    with Suc.prems show ?thesis by simp
  next
    case False
    with Suc.prems have lt: "page < p" by simp
    with Suc.prems have go: "goes_on client owner repo since wm page" by simp
    have "fetch_pages fuel client owner repo since wm (Suc page) acc' = Some (Inl e)" for acc'
      using Suc.prems lt by (intro Suc.IH) auto
    with go show ?thesis
      by (auto simp: goes_on_def Let_def split: sum.splits)
  qed
qed

text \<open>
  The loop ends within the fuel whenever some page within reach gives it a reason to
  stop: a rejection, an empty page, or a last element from before the watermark.
\<close>

lemma paging_ends:
  "\<not> goes_on client owner repo since wm p \<Longrightarrow> page \<le> p \<Longrightarrow> p - page < fuel
    \<Longrightarrow> fetch_pages fuel client owner repo since wm page acc \<noteq> None"
proof (induction fuel arbitrary: page acc)
  case 0
  then show ?case by simp
next
  case (Suc fuel)
  show ?case
  proof (cases "page = p")
    case True
    with Suc.prems(1) show ?thesis
      by (auto simp: goes_on_def Let_def split: sum.splits)
  next
    case False
    with Suc.prems have "fetch_pages fuel client owner repo since wm (Suc page) acc' \<noteq> None"
      for acc'
      by (intro Suc.IH) auto
    then show ?thesis
      by (auto simp: Let_def split: sum.splits)
  qed
qed

text \<open>
  What the paging loop has accumulated when it ends: the pages it has read, in order.
\<close>

lemma fetch_pages_concat:
  "fetch_pages fuel client owner repo since wm page acc = Some (Inr (page', acc'))
    \<Longrightarrow> page \<le> page'
        \<and> (case acc' of None \<Rightarrow> [] | Some a \<Rightarrow> a)
            = (case acc of None \<Rightarrow> [] | Some a \<Rightarrow> a)
              @ concat (map (page_data client owner repo since) [page..<Suc page'])"
proof (induction fuel arbitrary: page acc)
  case 0
  then show ?case by simp
next
  case (Suc fuel)
  show ?case
  proof (cases "pulls_list client owner repo since page")
    case (Inl e)
    with Suc.prems show ?thesis by simp
  next
    case (Inr data)
    show ?thesis
    proof (cases "data = [] \<or> date_lt (updated_at (last data)) wm")
      case True
      with Suc.prems Inr show ?thesis
        by (auto simp: page_data_def Let_def split: if_splits option.splits)
    next
      case False
      let ?acc = "Some (case acc of None \<Rightarrow> data | Some a \<Rightarrow> a @ data)"
      from False Suc.prems Inr
      have rec: "fetch_pages fuel client owner repo since wm (Suc page) ?acc
                  = Some (Inr (page', acc'))"
        by (simp add: Let_def)
      from Suc.IH [OF rec]
      have le: "Suc page \<le> page'" and
        eq: "(case acc' of None \<Rightarrow> [] | Some a \<Rightarrow> a)
              = (case ?acc of None \<Rightarrow> [] | Some a \<Rightarrow> a)
                @ concat (map (page_data client owner repo since) [Suc page..<Suc page'])"
        by simp_all
      from le have upt: "[page..<Suc page'] = page # [Suc page..<Suc page']"
        by (simp add: upt_conv_Cons)
      from Inr have pd: "page_data client owner repo since page = data"
        by (simp add: page_data_def)
      from le eq pd show ?thesis
        unfolding upt by (auto split: option.splits)
    qed
  qed
qed

lemma fetch_pages_from_start:
  "fetch_pages fuel client owner repo since wm 0 None = Some (Inr (page, Some rawPulls))
    \<Longrightarrow> rawPulls = pages_upto client owner repo since page"
  using fetch_pages_concat [of fuel client owner repo since wm 0 None page "Some rawPulls"]
  by (simp add: pages_upto_def)

lemma resolve_author_fails:
  "raw_user raw = Some name \<Longrightarrow> name \<noteq> [] \<Longrightarrow> \<not> inherited name
    \<Longrightarrow> getByUsername client name = Inl e
        \<or> (getByUsername client name = Inr user
            \<and> listSocialAccountsForUser client (login user) = Inl e)
    \<Longrightarrow> \<exists>e'. process_raw client new_URL raw = Inl e'"
  by (auto simp: process_raw_def resolve_author_def githubUserToPullRequestAuthorInfo_def
      split: sum.splits)

lemma getPullRequests_page_failure:
  assumes "effective_since g startFrom = Inr since"
    and "\<forall>q<p. goes_on client owner repo since (lastUpdateOn g) q"
    and "pulls_list client owner repo since p = Inl e" and "p < fuel"
  shows "getPullRequests fuel client new_URL now g owner repo startFrom = Some (Inl e, g)"
proof -
  from assms have "fetch_pages fuel client owner repo since (lastUpdateOn g) 0 None = Some (Inl e)"
    by (intro fetch_pages_reaches_failure) auto
  with assms(1) show ?thesis
    by (simp add: getPullRequests_def)
qed

lemma getPullRequests_author_failure:
  assumes "effective_since g startFrom = Inr since"
    and "fetch_pages fuel client owner repo since (lastUpdateOn g) 0 None
           = Some (Inr (page, Some rawPulls))"
    and "raw \<in> set rawPulls" and "raw_user raw = Some name" and "name \<noteq> []"
    and "\<not> inherited name"
    and "getByUsername client name = Inl e
          \<or> (getByUsername client name = Inr user
              \<and> listSocialAccountsForUser client (login user) = Inl e)"
  shows "\<exists>e'. getPullRequests fuel client new_URL now g owner repo startFrom = Some (Inl e', g)"
proof -
  from resolve_author_fails [OF assms(4-7)]
  obtain e1 where "process_raw client new_URL raw = Inl e1" ..
  from map_callbacks_Inl [OF assms(3) this]
  obtain e2 where "map_callbacks client new_URL rawPulls = Inl e2" ..
  with assms(1,2) show ?thesis
    by (simp add: getPullRequests_def)
qed

lemma update_fetch_failure:
  assumes "\<not> mutex st"
    and "getPullRequests fuel client new_URL now (github st)
           (REPO_OWNER settings) (REPO_NAME settings) (START_FROM settings) = Some (Inl e, g')"
  shows "update fuel settings client new_URL bluesky now st = Some st"
proof -
  from getPullRequests_Inl [OF assms(2)] have "g' = github st" .
  with assms show ?thesis
    by (simp add: update_def update_enter_def update_fetched_def)
qed


text \<open>
  C3. A call of \<^verbatim>\<open>getPullRequests\<close> that throws leaves the watermark exactly as it was.
  If a page request that the loop makes is rejected (every earlier page made the loop
  go on), the call throws that rejection; if the lookup of the author of any pull request
  read (the profile, or the linked accounts; a lookup is made for every login that names
  no property of \<^verbatim>\<open>Object.prototype\<close>) is rejected, the call throws; in both cases
  no batch is returned and the service is unchanged. The error reaches \<^verbatim>\<open>update\<close>,
  which emits nothing, releases the mutex and returns.
\<close>

theorem failure_returns_no_batch_and_keeps_watermark:
  "(getPullRequests fuel client new_URL now g owner repo startFrom = Some (Inl e, g')
      \<longrightarrow> g' = g)
   \<and> (effective_since g startFrom = Inr since
        \<and> (\<forall>q<p. goes_on client owner repo since (lastUpdateOn g) q)
        \<and> pulls_list client owner repo since p = Inl e \<and> p < fuel
      \<longrightarrow> getPullRequests fuel client new_URL now g owner repo startFrom = Some (Inl e, g))
   \<and> (effective_since g startFrom = Inr since
        \<and> fetch_pages fuel client owner repo since (lastUpdateOn g) 0 None
            = Some (Inr (page, Some rawPulls))
        \<and> raw \<in> set rawPulls \<and> raw_user raw = Some name \<and> name \<noteq> []
        \<and> \<not> inherited name
        \<and> (getByUsername client name = Inl e
            \<or> (getByUsername client name = Inr user
                \<and> listSocialAccountsForUser client (login user) = Inl e))
      \<longrightarrow> (\<exists>e'. getPullRequests fuel client new_URL now g owner repo startFrom
                  = Some (Inl e', g)))
   \<and> (\<not> mutex st
        \<and> getPullRequests fuel client new_URL now (github st)
            (REPO_OWNER settings) (REPO_NAME settings) (START_FROM settings) = Some (Inl e, g')
      \<longrightarrow> update fuel settings client new_URL bluesky now st = Some st)"
proof (intro conjI impI)
  assume "getPullRequests fuel client new_URL now g owner repo startFrom = Some (Inl e, g')"
  then show "g' = g" by (rule getPullRequests_Inl)
next
  assume "effective_since g startFrom = Inr since
        \<and> (\<forall>q<p. goes_on client owner repo since (lastUpdateOn g) q)
        \<and> pulls_list client owner repo since p = Inl e \<and> p < fuel"
  then show "getPullRequests fuel client new_URL now g owner repo startFrom = Some (Inl e, g)"
    by (intro getPullRequests_page_failure [where since = since and p = p]) simp_all
next
  assume "effective_since g startFrom = Inr since
        \<and> fetch_pages fuel client owner repo since (lastUpdateOn g) 0 None
            = Some (Inr (page, Some rawPulls))
        \<and> raw \<in> set rawPulls \<and> raw_user raw = Some name \<and> name \<noteq> []
        \<and> \<not> inherited name
        \<and> (getByUsername client name = Inl e
            \<or> (getByUsername client name = Inr user
                \<and> listSocialAccountsForUser client (login user) = Inl e))"
  then show "\<exists>e'. getPullRequests fuel client new_URL now g owner repo startFrom
                  = Some (Inl e', g)"
    by (intro getPullRequests_author_failure
          [where since = since and page = page and rawPulls = rawPulls and raw = raw
             and name = name and e = e and user = user]) simp_all
next
  assume "\<not> mutex st
        \<and> getPullRequests fuel client new_URL now (github st)
            (REPO_OWNER settings) (REPO_NAME settings) (START_FROM settings) = Some (Inl e, g')"
  then show "update fuel settings client new_URL bluesky now st = Some st"
    by (intro update_fetch_failure [where e = e and g' = g']) simp_all
qed

text \<open>
  The feed whose second page request is rejected, the feed read with a profile lookup
  that is rejected, and the job on the first of them.
\<close>

theorem failure_returns_no_batch_and_keeps_watermark_witness:
  "getPullRequests 5 (ex_client feed_failing ex_user no_socials) ex_new_URL 300 g100
       ''o'' ''r'' None = Some (Inl RequestError, g100)
   \<and> pulls_list (ex_client feed_failing ex_user no_socials) ''o'' ''r'' 100 1 = Inl RequestError
   \<and> goes_on (ex_client feed_failing ex_user no_socials) ''o'' ''r'' 100 (lastUpdateOn g100) 0
   \<and> \<not> inherited ''bot''
   \<and> getByUsername (ex_client feed_one_page users_failing no_socials) ''bot'' = Inl RequestError
   \<and> (\<exists>e'. getPullRequests 5 (ex_client feed_one_page users_failing no_socials) ex_new_URL 300
              g100 ''o'' ''r'' None = Some (Inl e', g100))
   \<and> \<not> mutex ex_engine
   \<and> update 5 ex_settings (ex_client feed_failing ex_user no_socials) ex_new_URL ex_bluesky 300
        ex_engine = Some ex_engine"
proof -
  let ?f = "ex_client feed_failing ex_user no_socials"
  let ?u = "ex_client feed_one_page users_failing no_socials"
  have since: "effective_since g100 None = Inr 100"
    by code_simp
  have go0: "goes_on ?f ''o'' ''r'' 100 (lastUpdateOn g100) 0"
    by code_simp
  then have go: "\<forall>q<1. goes_on ?f ''o'' ''r'' 100 (lastUpdateOn g100) q"
    by simp
  have fail: "pulls_list ?f ''o'' ''r'' 100 1 = Inl RequestError"
    by code_simp
  have run: "getPullRequests 5 ?f ex_new_URL 300 g100 ''o'' ''r'' None
              = Some (Inl RequestError, g100)"
    using failure_returns_no_batch_and_keeps_watermark
      [of 5 ?f ex_new_URL 300 g100 "''o''" "''r''" None RequestError g100 100 1]
      since go fail by simp
  have pages: "fetch_pages 5 ?u ''o'' ''r'' 100 (lastUpdateOn g100) 0 None
        = Some (Inr (0, Some [ex_raw 2 ''open'' (Some ''bot'') 160,
                              ex_raw 1 ''open'' (Some ''alice'') 150,
                              ex_raw 3 ''open'' (Some ''alice'') 90]))"
    by code_simp
  have user: "raw_user (ex_raw 2 ''open'' (Some ''bot'') 160) = Some ''bot''"
    by code_simp
  have lookup: "getByUsername ?u ''bot'' = Inl RequestError"
    by code_simp
  have made: "\<not> inherited ''bot''"
    by code_simp
  have author: "\<exists>e'. getPullRequests 5 ?u ex_new_URL 300 g100 ''o'' ''r'' None = Some (Inl e', g100)"
    using failure_returns_no_batch_and_keeps_watermark
      [of 5 ?u ex_new_URL 300 g100 "''o''" "''r''" None RequestError g100 100 0 0
          "[ex_raw 2 ''open'' (Some ''bot'') 160, ex_raw 1 ''open'' (Some ''alice'') 150,
            ex_raw 3 ''open'' (Some ''alice'') 90]"
          "ex_raw 2 ''open'' (Some ''bot'') 160" "''bot''"]
      since pages user lookup made by simp
  have idle: "\<not> mutex ex_engine"
    by code_simp
  have gh: "github ex_engine = g100" "REPO_OWNER ex_settings = ''o''"
    "REPO_NAME ex_settings = ''r''" "START_FROM ex_settings = None"
    by (simp_all add: ex_engine_def ex_settings_def)
  have engine: "update 5 ex_settings ?f ex_new_URL ex_bluesky 300 ex_engine = Some ex_engine"
    using failure_returns_no_batch_and_keeps_watermark
      [where fuel = 5 and client = ?f and new_URL = ex_new_URL and now = 300
         and e = RequestError and g' = g100 and st = ex_engine and settings = ex_settings
         and bluesky = ex_bluesky]
      run idle gh by simp
  from run fail go0 made lookup author idle engine show ?thesis
    by simp
qed


subsection \<open>Repeated pull requests\<close>

lemma subseq_distinct: "subseq xs ys \<Longrightarrow> distinct ys \<Longrightarrow> distinct xs"
  using subseqs_distinctD [of xs ys] by simp

lemma promise_all_numbers:
  "promise_all (map (process_raw client new_URL) raws) = Inr pulls
    \<Longrightarrow> map pr_number pulls = map raw_number raws"
proof (induction raws arbitrary: pulls)
  case Nil
  then show ?case by simp
next
  case (Cons raw raws)
  then show ?case
    by (cases "process_raw client new_URL raw")
       (auto split: sum.splits dest: process_raw_number)
qed

lemma getPullRequests_batch_numbers:
  assumes "getPullRequests fuel client new_URL now g owner repo startFrom = Some (Inr batch, g')"
  shows "\<exists>since page.
           effective_since g startFrom = Inr since
           \<and> fetch_pages fuel client owner repo since (lastUpdateOn g) 0 None
               = Some (Inr (page, Some (pages_upto client owner repo since page)))
           \<and> subseq (map pr_number batch)
                 (map raw_number (pages_upto client owner repo since page))"
proof -
  from getPullRequests_Inr [OF assms] obtain since page rawPulls pulls pulls1 where
    since: "effective_since g startFrom = Inr since" and
    pages: "fetch_pages fuel client owner repo since (lastUpdateOn g) 0 None
              = Some (Inr (page, Some rawPulls))" and
    all: "map_callbacks client new_URL rawPulls = Inr pulls" and
    ign: "filter_ignored (ignoreUsers g) pulls = Inr pulls1" and
    batch: "batch = filter (\<lambda>pr. date_ge (updatedAt pr) (lastUpdateOn g)) pulls1"
    by blast
  from fetch_pages_from_start [OF pages]
  have raws: "rawPulls = pages_upto client owner repo since page" .
  from promise_all_numbers [OF map_callbacks_Inr [OF all]]
  have numbers: "map pr_number pulls = map raw_number rawPulls" .
  have "subseq batch pulls1"
    unfolding batch by simp
  with filter_ignored_subseq [OF ign] have "subseq batch pulls"
    by (blast intro: subseq_order.trans)
  then have "subseq (map pr_number batch) (map pr_number pulls)"
    by (rule subseq_map)
  with numbers raws since pages show ?thesis
    by auto
qed

text \<open>
  C4, as the code has it. The batch is made from the pages read, one after the other,
  by mapping and filtering; nothing removes repetitions. The numbers of the batch are a
  subsequence of the numbers on the pages read, so a number occurs in the batch at most
  as often as on those pages, and at most once whenever the pages hold it at most once.
\<close>

theorem batch_repeats_what_pages_repeat:
  assumes "getPullRequests fuel client new_URL now g owner repo startFrom = Some (Inr batch, g')"
  shows "\<exists>since page.
           effective_since g startFrom = Inr since
           \<and> fetch_pages fuel client owner repo since (lastUpdateOn g) 0 None
               = Some (Inr (page, Some (pages_upto client owner repo since page)))
           \<and> subseq (map pr_number batch)
                 (map raw_number (pages_upto client owner repo since page))
           \<and> (distinct (map raw_number (pages_upto client owner repo since page))
                \<longrightarrow> distinct (map pr_number batch))"
  using getPullRequests_batch_numbers [OF assms] by (blast intro: subseq_distinct)

theorem batch_repeats_what_pages_repeat_witness:
  "getPullRequests 5 (ex_client feed_one_page ex_user no_socials) ex_new_URL 300 g100
       ''o'' ''r'' None
     = Some (Inr [ex_pr 1 Open ''alice'' 150], g100\<lparr>lastUpdateOn := 300\<rparr>)
   \<and> map raw_number (pages_upto (ex_client feed_one_page ex_user no_socials) ''o'' ''r'' 100 0)
       = [2, 1, 3]
   \<and> subseq (map pr_number [ex_pr 1 Open ''alice'' 150])
       (map raw_number (pages_upto (ex_client feed_one_page ex_user no_socials) ''o'' ''r'' 100 0))
   \<and> distinct (map pr_number [ex_pr 1 Open ''alice'' 150])"
proof -
  let ?c = "ex_client feed_one_page ex_user no_socials"
  have run: "getPullRequests 5 ?c ex_new_URL 300 g100 ''o'' ''r'' None
     = Some (Inr [ex_pr 1 Open ''alice'' 150], g100\<lparr>lastUpdateOn := 300\<rparr>)"
    by code_simp
  have since: "effective_since g100 None = Inr 100"
    by code_simp
  have pages: "fetch_pages 5 ?c ''o'' ''r'' 100 (lastUpdateOn g100) 0 None
        = Some (Inr (0, Some [ex_raw 2 ''open'' (Some ''bot'') 160,
                              ex_raw 1 ''open'' (Some ''alice'') 150,
                              ex_raw 3 ''open'' (Some ''alice'') 90]))"
    by code_simp
  have numbers: "map raw_number (pages_upto ?c ''o'' ''r'' 100 0) = [2, 1, 3]"
    by code_simp
  from batch_repeats_what_pages_repeat [OF run] obtain s p where
    s: "effective_since g100 None = Inr s" and
    p: "fetch_pages 5 ?c ''o'' ''r'' s (lastUpdateOn g100) 0 None
          = Some (Inr (p, Some (pages_upto ?c ''o'' ''r'' s p)))" and
    sub: "subseq (map pr_number [ex_pr 1 Open ''alice'' 150])
            (map raw_number (pages_upto ?c ''o'' ''r'' s p))" and
    dist: "distinct (map raw_number (pages_upto ?c ''o'' ''r'' s p))
            \<longrightarrow> distinct (map pr_number [ex_pr 1 Open ''alice'' 150])"
    by blast
  from s since have s100: "s = 100" by simp
  from p pages have p0: "p = 0" unfolding s100 by simp
  from numbers dist have "distinct (map pr_number [ex_pr 1 Open ''alice'' 150])"
    unfolding s100 p0 by simp
  with run numbers sub show ?thesis
    unfolding s100 p0 by simp
qed

text \<open>
  C4 as stated fails: when the feed serves pull request 42 on page 0 and again on page 1,
  the batch holds it twice.
\<close>

theorem batch_not_deduplicated:
  "getPullRequests 5 (ex_client feed_repeating ex_user no_socials) ex_new_URL 300 g100
       ''o'' ''r'' None
     = Some (Inr [ex_pr 42 Open ''alice'' 150, ex_pr 42 Open ''alice'' 150],
             g100\<lparr>lastUpdateOn := 300\<rparr>)
   \<and> \<not> distinct (map pr_number [ex_pr 42 Open ''alice'' 150, ex_pr 42 Open ''alice'' 150])"
  by code_simp


subsection \<open>An empty first page\<close>

text \<open>
  C5. The code does not do what the claim says. When the first page is empty the loop
  ends with \<^verbatim>\<open>rawPulls\<close> still undefined, and \<^verbatim>\<open>rawPulls!.map\<close> throws a TypeError:
  the call returns no batch and the watermark stays where it was. The job logs the
  failure and returns.
\<close>

theorem empty_first_page_throws:
  "getPullRequests (Suc fuel)
       (client\<lparr>pulls_list := \<lambda>owner repo since page.
                  if page = 0 then Inr [] else pulls_list client owner repo since page\<rparr>)
       new_URL now g owner repo None
     = Some (Inl TypeError, g)
   \<and> update (Suc fuel) (settings\<lparr>START_FROM := None\<rparr>)
       (client\<lparr>pulls_list := \<lambda>owner repo since page.
                  if page = 0 then Inr [] else pulls_list client owner repo since page\<rparr>)
       new_URL bluesky now \<lparr>mutex = False, github = g, emitted = out\<rparr>
     = Some \<lparr>mutex = False, github = g, emitted = out\<rparr>"
  by (simp add: getPullRequests_def effective_since_def update_def update_enter_def
      update_fetched_def)

text \<open>The same on the concrete feed without pull requests.\<close>

theorem empty_first_page_throws_witness:
  "getPullRequests 5 (ex_client feed_empty ex_user no_socials) ex_new_URL 300 g100
       ''o'' ''r'' None
     = Some (Inl TypeError, g100)"
proof -
  have "(ex_client feed_empty ex_user no_socials)
          \<lparr>pulls_list := \<lambda>owner repo since page.
             if page = 0 then Inr []
             else pulls_list (ex_client feed_empty ex_user no_socials) owner repo since page\<rparr>
        = ex_client feed_empty ex_user no_socials"
    by (simp add: ex_client_def feed_empty_def fun_eq_iff)
  with empty_first_page_throws
         [of 4 "ex_client feed_empty ex_user no_socials" ex_new_URL 300 g100 "''o''" "''r''"]
  show ?thesis
    by simp
qed

subsection \<open>Missing lifecycle timestamps\<close>

lemma batch_dates:
  assumes "getPullRequests fuel client new_URL now g owner repo startFrom = Some (Inr batch, g')"
    and "pr \<in> set batch"
  shows "date_ge (updatedAt pr) (lastUpdateOn g)"
proof -
  from getPullRequests_Inr [OF assms(1)] obtain pulls1 where
    "batch = filter (\<lambda>pr. date_ge (updatedAt pr) (lastUpdateOn g)) pulls1"
    by blast
  with assms(2) show ?thesis
    by simp
qed

text \<open>
  C8, as the code has it. The switch on the state checks no timestamp: for a closed pull
  request whose close time is \<^verbatim>\<open>null\<close>, and for a merged one whose merge time is
  \<^verbatim>\<open>null\<close>, the lifecycle date is \<^verbatim>\<open>new Date(null)\<close>, the epoch, and nothing is
  thrown. The switch throws only for a state that is none of the four. A service whose
  watermark is after the epoch never returns a pull request dated at the epoch: the
  watermark filter drops it without a word.
\<close>

theorem missing_timestamp_becomes_epoch:
  "(raw_state raw = ''closed'' \<and> closed_at raw = None
      \<longrightarrow> raw_lifecycle raw = Inr (Closed, Valid_Date 0))
   \<and> (raw_state raw = ''merged'' \<and> merged_at raw = None
      \<longrightarrow> raw_lifecycle raw = Inr (Merged, Valid_Date 0))
   \<and> (isl (raw_lifecycle raw)
      \<longleftrightarrow> raw_state raw \<notin> {''open'', ''closed'', ''merged'', ''draft''})
   \<and> (getPullRequests fuel client new_URL now g owner repo startFrom = Some (Inr batch, g')
        \<and> 0 < lastUpdateOn g
      \<longrightarrow> (\<forall>pr \<in> set batch. updatedAt pr \<noteq> Valid_Date 0))"
proof (intro conjI impI ballI)
  assume "raw_state raw = ''closed'' \<and> closed_at raw = None"
  then show "raw_lifecycle raw = Inr (Closed, Valid_Date 0)"
    by (simp add: raw_lifecycle_def)
next
  assume "raw_state raw = ''merged'' \<and> merged_at raw = None"
  then show "raw_lifecycle raw = Inr (Merged, Valid_Date 0)"
    by (simp add: raw_lifecycle_def)
next
  show "isl (raw_lifecycle raw)
      \<longleftrightarrow> raw_state raw \<notin> {''open'', ''closed'', ''merged'', ''draft''}"
    by (simp add: raw_lifecycle_def)
next
  fix pr
  assume call: "getPullRequests fuel client new_URL now g owner repo startFrom
                  = Some (Inr batch, g') \<and> 0 < lastUpdateOn g"
    and pr: "pr \<in> set batch"
  from call have "getPullRequests fuel client new_URL now g owner repo startFrom
                    = Some (Inr batch, g')"
    by simp
  from batch_dates [OF this pr] have "date_ge (updatedAt pr) (lastUpdateOn g)" .
  with call show "updatedAt pr \<noteq> Valid_Date 0"
    by auto
qed

theorem missing_timestamp_becomes_epoch_witness:
  "raw_state (ex_raw 7 ''closed'' (Some ''alice'') 150) = ''closed''
   \<and> closed_at (ex_raw 7 ''closed'' (Some ''alice'') 150) = None
   \<and> raw_lifecycle (ex_raw 7 ''closed'' (Some ''alice'') 150) = Inr (Closed, Valid_Date 0)
   \<and> raw_state (ex_raw 8 ''merged'' (Some ''alice'') 150) = ''merged''
   \<and> merged_at (ex_raw 8 ''merged'' (Some ''alice'') 150) = None
   \<and> raw_lifecycle (ex_raw 8 ''merged'' (Some ''alice'') 150) = Inr (Merged, Valid_Date 0)
   \<and> getPullRequests 5 (ex_client feed_closed_null ex_user no_socials) ex_new_URL 300 g100
        ''o'' ''r'' None
      = Some (Inr [ex_pr 1 Open ''alice'' 140], g100\<lparr>lastUpdateOn := 300\<rparr>)
   \<and> 0 < lastUpdateOn g100
   \<and> updatedAt (ex_pr 1 Open ''alice'' 140) \<noteq> Valid_Date 0"
proof -
  let ?closed = "ex_raw 7 ''closed'' (Some ''alice'') 150"
  let ?merged = "ex_raw 8 ''merged'' (Some ''alice'') 150"
  have c: "raw_state ?closed = ''closed''" "closed_at ?closed = None"
    by (simp_all add: ex_raw_def)
  have m: "raw_state ?merged = ''merged''" "merged_at ?merged = None"
    by (simp_all add: ex_raw_def)
  have wm: "0 < lastUpdateOn g100"
    by (simp add: g100_def new_GithubService_def)
  have run: "getPullRequests 5 (ex_client feed_closed_null ex_user no_socials) ex_new_URL 300
               g100 ''o'' ''r'' None
             = Some (Inr [ex_pr 1 Open ''alice'' 140], g100\<lparr>lastUpdateOn := 300\<rparr>)"
    by code_simp
  from c missing_timestamp_becomes_epoch [of ?closed]
  have 1: "raw_lifecycle ?closed = Inr (Closed, Valid_Date 0)"
    by blast
  from m missing_timestamp_becomes_epoch [of ?merged]
  have 2: "raw_lifecycle ?merged = Inr (Merged, Valid_Date 0)"
    by blast
  from run wm
    missing_timestamp_becomes_epoch
      [where fuel = 5 and client = "ex_client feed_closed_null ex_user no_socials"
         and new_URL = ex_new_URL and now = 300 and g = g100 and owner = "''o''"
         and repo = "''r''" and startFrom = None and batch = "[ex_pr 1 Open ''alice'' 140]"
         and g' = "g100\<lparr>lastUpdateOn := 300\<rparr>"]
  have 3: "updatedAt (ex_pr 1 Open ''alice'' 140) \<noteq> Valid_Date 0"
    by simp
  from c m wm run 1 2 3 show ?thesis
    by simp
qed

text \<open>
  C8 as stated fails: a feed with a closed pull request whose close time is \<^verbatim>\<open>null\<close>
  raises nothing. The pull request is given the epoch as its date, and the call returns
  the batch without it.
\<close>

theorem closed_without_close_time_raises_nothing:
  "closed_at (ex_raw 7 ''closed'' (Some ''alice'') 150) = None
   \<and> process_raw (ex_client feed_closed_null ex_user no_socials) ex_new_URL
        (ex_raw 7 ''closed'' (Some ''alice'') 150)
      = Inr (ex_pr 7 Closed ''alice'' 0)
   \<and> getPullRequests 5 (ex_client feed_closed_null ex_user no_socials) ex_new_URL 300 g100
        ''o'' ''r'' None
      = Some (Inr [ex_pr 1 Open ''alice'' 140], g100\<lparr>lastUpdateOn := 300\<rparr>)"
  by code_simp

section \<open>Properties of author resolution\<close>

text \<open>\<^verbatim>\<open>split\<close> never returns an empty array, so \<^verbatim>\<open>pop\<close> always finds a piece.\<close>

lemma split_from_nonempty: "split_from sep cur s \<noteq> []"
  by (induction sep cur s rule: split_from.induct) auto

lemma split_nonempty: "split sep s \<noteq> []"
  by (simp add: split_def split_from_nonempty)

text \<open>
  A Bluesky account whose URL does not parse, has another host or has nothing after
  \<^verbatim>\<open>/profile/\<close> leaves the handle as it was and is written to the console; the
  accounts after it are still read, since the error is caught inside the iteration.
\<close>

lemma bluesky_failure_leaves_handle:
  "parse_bluesky new_URL u = Inl e
    \<Longrightarrow> add_social new_URL (author, logged) \<lparr>provider = ''bluesky'', social_url = u\<rparr>
        = (author\<lparr>bskyUrl := Some u\<rparr>, logged @ [e])"
  by (simp add: add_social_def)

text \<open>
  A Mastodon account whose URL parses is assigned a handle whatever the username is:
  the length test comes after the assignment.
\<close>

lemma mastodon_assigns_before_check:
  "new_URL u = Some url
    \<Longrightarrow> mastodon (fst (add_social new_URL (author, logged)
                        \<lparr>provider = ''mastodon'', social_url = u\<rparr>))
        = Some (split_pop ''@'' (pathname url) @ ''@'' @ hostname url)"
  by (simp add: add_social_def parse_mastodon_def Let_def)

text \<open>
  C9. The code does not do what the claim says for the federated network. For a
  profile that links \<^verbatim>\<open>https://mastodon.social/@\<close> (no handle) and a well-formed
  Bluesky account, the error is caught and logged and the Bluesky handle is resolved,
  but the Mastodon handle is not left unset: it is \<^verbatim>\<open>@mastodon.social\<close>.
\<close>

theorem empty_mastodon_handle_is_assigned:
  "githubUserToPullRequestAuthorInfo (ex_client feed_empty ex_user socials_empty_mastodon)
       ex_new_URL \<lparr>login = ''alice'', html_url = ''https://github.com/alice''\<rparr>
     = Inr ((ex_author ''alice'')
              \<lparr>bsky := Some ''alice.bsky.social'',
               bskyUrl := Some ''https://bsky.app/profile/alice.bsky.social'',
               mastodon := Some ''@mastodon.social'',
               mastodonUrl := Some ''https://mastodon.social/@''\<rparr>,
            [Error ''Invalid Mastodon URL: https://mastodon.social/@''])"
  by code_simp

section \<open>Properties of the update job\<close>

subsection \<open>Drafts\<close>

text \<open>
  A draft at the head of the batch, or after other drafts, produces nothing: the builder
  is still undefined.
\<close>

lemma draft_first_emits_nothing:
  "pr_author pr = Some author \<Longrightarrow> \<not> truthy (bsky author) \<Longrightarrow> pr_state pr = Draft
    \<Longrightarrow> publish_one settings bluesky None pr = (Inr None, [])"
  by (simp add: publish_one_def)

text \<open>
  A draft that follows a message finds the builder of that message in \<^verbatim>\<open>b\<close>, and the
  message is written again.
\<close>

lemma draft_later_emits_previous:
  "pr_author pr = Some author \<Longrightarrow> \<not> truthy (bsky author) \<Longrightarrow> pr_state pr = Draft
    \<Longrightarrow> \<not> production settings
    \<Longrightarrow> publish_one settings bluesky (Some segs) pr = (Inr (Some segs), [Console segs])"
  by (simp add: publish_one_def)

text \<open>
  C6. The code does not do what the claim says. For the batch of an open pull request
  followed by a draft, in production mode, the loop writes and posts the message of the
  open pull request, and on reaching the draft writes and posts the same text once more,
  now with the link preview of the draft. The same happens when the job reads such a
  batch from the feed.
\<close>

theorem draft_after_open_repeats_message:
  "publish_all ex_settings ex_bluesky None
       [ex_pr 1 Open ''alice'' 160, ex_pr 2 Draft ''alice'' 150]
     = (None,
        [Console ex_message, Posted \<lparr>skeet_text = ex_message, skeet_embed = ex_embed 1\<rparr>,
         Console ex_message, Posted \<lparr>skeet_text = ex_message, skeet_embed = ex_embed 2\<rparr>])
   \<and> update 5 ex_settings (ex_client feed_open_then_draft ex_user no_socials) ex_new_URL
        ex_bluesky 300 ex_engine
     = Some \<lparr>mutex = False, github = g100\<lparr>lastUpdateOn := 300\<rparr>,
             emitted =
               [Console ex_message, Posted \<lparr>skeet_text = ex_message, skeet_embed = ex_embed 1\<rparr>,
                Console ex_message, Posted \<lparr>skeet_text = ex_message, skeet_embed = ex_embed 2\<rparr>]\<rparr>"
  by code_simp


subsection \<open>The mutex\<close>

lemma update_skips_when_busy:
  "mutex st \<Longrightarrow> update fuel settings client new_URL bluesky now st = Some st"
  by (simp add: update_def update_enter_def)

lemma update_releases_mutex:
  "\<not> mutex st \<Longrightarrow> update fuel settings client new_URL bluesky now st = Some st'
    \<Longrightarrow> \<not> mutex st'"
  by (auto simp: update_def update_enter_def update_fetched_def update_publish_def Let_def
      split: option.splits sum.splits prod.splits)

text \<open>
  An invocation that nothing interrupts is a run of the overlapping system: the tick,
  the end of the fetch and, if there is a batch, the end of the publishing.
\<close>

lemma update_is_a_run:
  assumes "\<not> mutex st"
    and "update fuel settings client new_URL bluesky now st = Some st'"
  shows "(step settings)\<^sup>*\<^sup>* \<lparr>engine = st, in_flight = []\<rparr> \<lparr>engine = st', in_flight = []\<rparr>"
proof -
  let ?st1 = "st\<lparr>mutex := True\<rparr>"
  let ?s0 = "\<lparr>engine = st, in_flight = []\<rparr>"
  let ?s1 = "\<lparr>engine = ?st1, in_flight = [Fetching]\<rparr>"
  from assms(1) have enter: "update_enter st = (True, ?st1)"
    by (simp add: update_enter_def)
  from step.tick [of ?s0 True ?st1 settings] enter have s01: "step settings ?s0 ?s1"
    by simp
  from assms(2) enter obtain r g' where
    call: "getPullRequests fuel client new_URL now (github ?st1)
             (REPO_OWNER settings) (REPO_NAME settings) (START_FROM settings) = Some (r, g')"
    by (auto simp: update_def split: option.splits)
  obtain cont e' where fetched: "update_fetched r (?st1\<lparr>github := g'\<rparr>) = (cont, e')"
    by (cases "update_fetched r (?st1\<lparr>github := g'\<rparr>)")
  from step.fetched [of 0 ?s1 fuel client new_URL now settings r g' cont e'] call fetched
  have s12: "step settings ?s1
      \<lparr>engine = e', in_flight = (case cont of None \<Rightarrow> remove_nth 0 [Fetching]
                                  | Some prs \<Rightarrow> [Fetching][0 := Publishing prs])\<rparr>"
    by (cases cont) simp_all
  show ?thesis
  proof (cases cont)
    case None
    with assms(2) enter call fetched have "st' = e'"
      by (simp add: update_def)
    with s12 None have "step settings ?s1 \<lparr>engine = st', in_flight = []\<rparr>"
      by (simp add: remove_nth_def)
    with s01 show ?thesis
      by (meson rtranclp.rtrancl_into_rtrancl r_into_rtranclp)
  next
    case (Some prs)
    let ?s2 = "\<lparr>engine = e', in_flight = [Publishing prs]\<rparr>"
    from s12 Some have s12': "step settings ?s1 ?s2"
      by simp
    from assms(2) enter call fetched Some have st': "st' = update_publish settings bluesky prs e'"
      by (simp add: update_def)
    from step.published [of 0 ?s2 prs settings bluesky] st'
    have "step settings ?s2 \<lparr>engine = st', in_flight = []\<rparr>"
      by (simp add: remove_nth_def)
    with s01 s12' show ?thesis
      by (meson rtranclp.rtrancl_into_rtrancl r_into_rtranclp)
  qed
qed

text \<open>
  The invariant of the overlapping system: at most one invocation is in flight, and the
  mutex is taken exactly while one is.
\<close>

lemma step_keeps_one_in_flight:
  assumes "step settings s s'"
    and "length (in_flight s) \<le> 1" and "mutex (engine s) \<longleftrightarrow> in_flight s \<noteq> []"
  shows "length (in_flight s') \<le> 1 \<and> (mutex (engine s') \<longleftrightarrow> in_flight s' \<noteq> [])"
  using assms
proof (cases rule: step.cases)
  case (tick entered e')
  with assms(2,3) show ?thesis
    by (auto simp: update_enter_def split: if_splits)
next
  case (fetched i fuel client new_URL now r g' cont e')
  from fetched(2) assms(2) have one: "length (in_flight s) = 1" and i: "i = 0"
    by auto
  then obtain x where x: "in_flight s = [x]"
    by (cases "in_flight s") auto
  with assms(3) have busy: "mutex (engine s)"
    by simp
  from fetched(1,5) x i busy show ?thesis
    by (cases r) (auto simp: update_fetched_def remove_nth_def)
next
  case (published i prs bluesky)
  from published(2) assms(2) have "length (in_flight s) = 1" and i: "i = 0"
    by auto
  then obtain x where x: "in_flight s = [x]"
    by (cases "in_flight s") auto
  from published(1) x i show ?thesis
    by (simp add: update_publish_def remove_nth_def Let_def)
qed

lemma reachable_one_in_flight:
  "reachable settings g s
    \<Longrightarrow> length (in_flight s) \<le> 1 \<and> (mutex (engine s) \<longleftrightarrow> in_flight s \<noteq> [])"
  unfolding reachable_def
proof (induction rule: rtranclp_induct)
  case base
  show ?case
    by (simp add: start_def)
next
  case (step s s')
  from step_keeps_one_in_flight [OF step.hyps(2)] step.IH show ?case
    by blast
qed

text \<open>
  C7. An invocation of \<^verbatim>\<open>update\<close> that finds the mutex taken returns at once and
  changes nothing: no fetch, nothing emitted. An invocation that finds it free leaves it
  free when it returns, whether the fetch failed, the publishing failed or all went well.
  In every state the overlapping system can reach, at most one invocation is in flight,
  the mutex is taken exactly while one is, and a tick that arrives meanwhile does not
  enter.
\<close>

theorem at_most_one_sync_in_flight:
  "(mutex st \<longrightarrow> update fuel settings client new_URL bluesky now st = Some st)
   \<and> (\<not> mutex st \<and> update fuel settings client new_URL bluesky now st = Some st'
        \<longrightarrow> \<not> mutex st')
   \<and> (reachable settings g s
        \<longrightarrow> length (in_flight s) \<le> 1 \<and> (mutex (engine s) \<longleftrightarrow> in_flight s \<noteq> []))
   \<and> (reachable settings g s \<and> in_flight s \<noteq> []
        \<longrightarrow> update_enter (engine s) = (False, engine s))"
proof (intro conjI impI)
  assume "mutex st"
  then show "update fuel settings client new_URL bluesky now st = Some st"
    by (rule update_skips_when_busy)
next
  assume "\<not> mutex st \<and> update fuel settings client new_URL bluesky now st = Some st'"
  then show "\<not> mutex st'"
    using update_releases_mutex by blast
next
  assume r: "reachable settings g s"
  from reachable_one_in_flight [OF r] show "length (in_flight s) \<le> 1"
    by simp
  from reachable_one_in_flight [OF r] show "mutex (engine s) \<longleftrightarrow> in_flight s \<noteq> []"
    by simp
next
  assume "reachable settings g s \<and> in_flight s \<noteq> []"
  with reachable_one_in_flight [of settings g s] have "mutex (engine s)"
    by simp
  then show "update_enter (engine s) = (False, engine s)"
    by (simp add: update_enter_def)
qed

text \<open>
  A busy engine skips; a free engine ends free after a run that posts, after a fetch
  that fails and after a post that is rejected; the system after one tick is reachable
  and has one invocation in flight.
\<close>

theorem at_most_one_sync_in_flight_witness:
  "mutex (ex_engine\<lparr>mutex := True\<rparr>)
   \<and> update 5 ex_settings (ex_client feed_one_page ex_user no_socials) ex_new_URL ex_bluesky 300
        (ex_engine\<lparr>mutex := True\<rparr>) = Some (ex_engine\<lparr>mutex := True\<rparr>)
   \<and> \<not> mutex ex_engine
   \<and> update 5 ex_settings (ex_client feed_one_page ex_user no_socials) ex_new_URL ex_bluesky 300
        ex_engine
      = Some \<lparr>mutex = False, github = g100\<lparr>lastUpdateOn := 300\<rparr>,
              emitted = [Console ex_message,
                         Posted \<lparr>skeet_text = ex_message, skeet_embed = ex_embed 1\<rparr>]\<rparr>
   \<and> update 5 ex_settings (ex_client feed_failing ex_user no_socials) ex_new_URL ex_bluesky 300
        ex_engine
      = Some ex_engine
   \<and> update 5 ex_settings (ex_client feed_one_page ex_user no_socials) ex_new_URL
        ex_bluesky_rejecting 300 ex_engine
      = Some \<lparr>mutex = False, github = g100\<lparr>lastUpdateOn := 300\<rparr>,
              emitted = [Console ex_message]\<rparr>
   \<and> reachable ex_settings g100 ex_system_busy
   \<and> length (in_flight ex_system_busy) \<le> 1
   \<and> mutex (engine ex_system_busy)
   \<and> in_flight ex_system_busy \<noteq> []
   \<and> update_enter (engine ex_system_busy) = (False, engine ex_system_busy)"
proof -
  let ?busy = "ex_engine\<lparr>mutex := True\<rparr>"
  let ?one = "ex_client feed_one_page ex_user no_socials"
  have busy: "mutex ?busy"
    by simp
  have idle: "\<not> mutex ex_engine"
    by (simp add: ex_engine_def)
  have skip: "update 5 ex_settings ?one ex_new_URL ex_bluesky 300 ?busy = Some ?busy"
    using at_most_one_sync_in_flight
      [where st = ?busy and fuel = 5 and settings = ex_settings and client = ?one
         and new_URL = ex_new_URL and bluesky = ex_bluesky and now = 300]
      busy by blast
  have ok: "update 5 ex_settings ?one ex_new_URL ex_bluesky 300 ex_engine
      = Some \<lparr>mutex = False, github = g100\<lparr>lastUpdateOn := 300\<rparr>,
              emitted = [Console ex_message,
                         Posted \<lparr>skeet_text = ex_message, skeet_embed = ex_embed 1\<rparr>]\<rparr>"
    by code_simp
  have fetch: "update 5 ex_settings (ex_client feed_failing ex_user no_socials) ex_new_URL
                 ex_bluesky 300 ex_engine = Some ex_engine"
    by code_simp
  have publish: "update 5 ex_settings ?one ex_new_URL ex_bluesky_rejecting 300 ex_engine
      = Some \<lparr>mutex = False, github = g100\<lparr>lastUpdateOn := 300\<rparr>,
              emitted = [Console ex_message]\<rparr>"
    by code_simp
  have "step ex_settings (start g100)
          \<lparr>engine = ex_engine\<lparr>mutex := True\<rparr>,
           in_flight = in_flight (start g100) @ (if True then [Fetching] else [])\<rparr>"
    by (rule step.tick) (simp add: update_enter_def start_def ex_engine_def)
  then have "step ex_settings (start g100) ex_system_busy"
    by (simp add: ex_system_busy_def start_def)
  then have reach: "reachable ex_settings g100 ex_system_busy"
    unfolding reachable_def by (rule r_into_rtranclp)
  have flight: "in_flight ex_system_busy \<noteq> []"
    by (simp add: ex_system_busy_def)
  from at_most_one_sync_in_flight [where settings = ex_settings and g = g100
      and s = ex_system_busy] reach flight
  have inv: "length (in_flight ex_system_busy) \<le> 1" "mutex (engine ex_system_busy)"
    "update_enter (engine ex_system_busy) = (False, engine ex_system_busy)"
    by blast+
  from busy skip idle ok fetch publish reach flight inv show ?thesis
    by simp
qed

section \<open>Properties of the service base class\<close>

lemma init_when_initialized:
  "isInitialized s
    \<Longrightarrow> init onInit s = \<lparr>init_result = Inr (), init_service = s, onInit_calls = 0\<rparr>"
  by (simp add: init_def)

lemma init_times_when_initialized:
  "isInitialized s \<Longrightarrow> init_times n onInit s = (s, 0)"
  by (induction n) (simp_all add: init_when_initialized)

lemma init_success_initializes:
  "init_result (init onInit s) = Inr () \<Longrightarrow> isInitialized (init_service (init onInit s))"
  by (auto simp: init_def split: if_splits prod.splits sum.splits)

lemma init_calls_at_most_one: "onInit_calls (init onInit s) \<le> 1"
  by (auto simp: init_def split: prod.splits sum.splits)

text \<open>
  Before any call has succeeded the flag is not set, and a call after one that threw
  invokes \<^verbatim>\<open>onInit\<close> again.
\<close>

lemma init_retries_after_failure:
  "\<not> isInitialized s \<Longrightarrow> onInit s = (Inl e, s') \<Longrightarrow> \<not> isInitialized s'
    \<Longrightarrow> init_service (init onInit s) = s' \<and> onInit_calls (init onInit s') = 1"
  by (auto simp: init_def split: prod.splits sum.splits)

text \<open>
  C10. After a call of \<^verbatim>\<open>init\<close> that succeeded, a further call returns without
  invoking \<^verbatim>\<open>onInit\<close> and leaves the instance as it is, and so does any number of
  further calls: over the successful call and all that follow it, \<^verbatim>\<open>onInit\<close> runs at
  most once.
\<close>

theorem init_is_idempotent:
  "init_result (init onInit s) = Inr ()
    \<longrightarrow> init onInit (init_service (init onInit s))
          = \<lparr>init_result = Inr (), init_service = init_service (init onInit s),
             onInit_calls = 0\<rparr>
        \<and> init_times n onInit (init_service (init onInit s)) = (init_service (init onInit s), 0)
        \<and> onInit_calls (init onInit s)
            + snd (init_times n onInit (init_service (init onInit s))) \<le> 1"
proof
  assume "init_result (init onInit s) = Inr ()"
  then have ready: "isInitialized (init_service (init onInit s))"
    by (rule init_success_initializes)
  from init_when_initialized [OF ready] init_times_when_initialized [OF ready]
    init_calls_at_most_one [of onInit s]
  show "init onInit (init_service (init onInit s))
          = \<lparr>init_result = Inr (), init_service = init_service (init onInit s),
             onInit_calls = 0\<rparr>
        \<and> init_times n onInit (init_service (init onInit s)) = (init_service (init onInit s), 0)
        \<and> onInit_calls (init onInit s)
            + snd (init_times n onInit (init_service (init onInit s))) \<le> 1"
    by simp
qed

text \<open>
  The Bluesky service: the first \<^verbatim>\<open>init\<close> creates the agent, logs in and sets the
  flag; three more calls change nothing and do not log in again.
\<close>

theorem init_is_idempotent_witness:
  "init (Bluesky_onInit login_ok) ex_bluesky_service
     = \<lparr>init_result = Inr (),
        init_service = ex_bluesky_service\<lparr>isInitialized := True,
                                           agent := Some ''https://bsky.social''\<rparr>,
        onInit_calls = 1\<rparr>
   \<and> init_times 3 (Bluesky_onInit login_ok)
        (ex_bluesky_service\<lparr>isInitialized := True, agent := Some ''https://bsky.social''\<rparr>)
      = (ex_bluesky_service\<lparr>isInitialized := True, agent := Some ''https://bsky.social''\<rparr>, 0)"
proof -
  have first: "init (Bluesky_onInit login_ok) ex_bluesky_service
     = \<lparr>init_result = Inr (),
        init_service = ex_bluesky_service\<lparr>isInitialized := True,
                                           agent := Some ''https://bsky.social''\<rparr>,
        onInit_calls = 1\<rparr>"
    by (simp add: init_def Bluesky_onInit_def login_ok_def ex_bluesky_service_def)
  with init_is_idempotent [of "Bluesky_onInit login_ok" ex_bluesky_service 3]
  show ?thesis
    by simp
qed

end
